theory Spec2Isabelle
  imports Main
begin

section \<open>Data model (types module)\<close>

text \<open>
  The interfaces of the types module, one record per interface. Optional fields
  (\<^verbatim>\<open>next?\<close>, \<^verbatim>\<open>errorHandler?\<close>, ...) are \<open>option\<close>s, \<^verbatim>\<open>Record<string, any>\<close>
  is a map from keys to JSON values, a \<^verbatim>\<open>Date\<close> is its millisecond count, and a
  string is the list of the bytes of its UTF-8 encoding. Field
  names carry a prefix because several interfaces share \<^verbatim>\<open>id\<close>, \<^verbatim>\<open>name\<close>
  and \<^verbatim>\<open>type\<close>.
\<close>

datatype json =
  JNull | JBool bool | JNum int | JStr string | JArr "json list" | JObj "(string \<times> json) list"

type_synonym jsobject = "string \<rightharpoonup> json"

datatype error = Error (message: string)

datatype step_kind = Action | Condition | Loop | Parallel | Delay

datatype backoff = Fixed | Exponential | Linear

record RetryPolicy =
  maxAttempts :: int
  backoff :: backoff
  delay :: int
  maxDelay :: "int option"

record WorkflowTrigger =
  trg_type :: string
  trg_eventType :: string
  trg_filters :: "jsobject option"
  trg_conditions :: "string list option"

text \<open>
  \<^verbatim>\<open>WorkflowStep\<close> declares no \<^verbatim>\<open>dependencies\<close> field, but the engine's
  \<^verbatim>\<open>findPendingSteps\<close> reads \<^verbatim>\<open>step.dependencies\<close> from the stored step objects,
  so the record carries it as one more optional field.
\<close>

record WorkflowStep =
  step_id :: string
  step_name :: string
  step_type :: step_kind
  step_config :: jsobject
  step_next :: "string list option"
  step_errorHandler :: "string option"
  step_retryPolicy :: "RetryPolicy option"
  step_dependencies :: "string list option"

record WorkflowDefinition =
  wf_id :: string
  wf_name :: string
  wf_version :: string
  wf_description :: "string option"
  wf_triggers :: "WorkflowTrigger list"
  wf_steps :: "WorkflowStep list"
  wf_metadata :: jsobject

record ValidationResult =
  isValid :: bool
  errors :: "string list"
  warnings :: "string list"

section \<open>Strings and sets of JavaScript\<close>

text \<open>
  \<^verbatim>\<open>String.prototype.trim\<close> removes the white space and the line terminators of
  ECMAScript from both ends: U+0009 to U+000D, U+0020, U+00A0, U+1680, U+2000 to U+200A,
  U+2028, U+2029, U+202F, U+205F, U+3000 and U+FEFF, each listed here by its UTF-8 bytes.
\<close>

definition whiteSpace :: "string list" where
  "whiteSpace =
     [[CHR 0x09], [CHR 0x0A], [CHR 0x0B], [CHR 0x0C], [CHR 0x0D], [CHR 0x20],
      [CHR 0xC2, CHR 0xA0],
      [CHR 0xE1, CHR 0x9A, CHR 0x80],
      [CHR 0xE2, CHR 0x80, CHR 0x80], [CHR 0xE2, CHR 0x80, CHR 0x81],
      [CHR 0xE2, CHR 0x80, CHR 0x82], [CHR 0xE2, CHR 0x80, CHR 0x83],
      [CHR 0xE2, CHR 0x80, CHR 0x84], [CHR 0xE2, CHR 0x80, CHR 0x85],
      [CHR 0xE2, CHR 0x80, CHR 0x86], [CHR 0xE2, CHR 0x80, CHR 0x87],
      [CHR 0xE2, CHR 0x80, CHR 0x88], [CHR 0xE2, CHR 0x80, CHR 0x89],
      [CHR 0xE2, CHR 0x80, CHR 0x8A],
      [CHR 0xE2, CHR 0x80, CHR 0xA8], [CHR 0xE2, CHR 0x80, CHR 0xA9],
      [CHR 0xE2, CHR 0x80, CHR 0xAF],
      [CHR 0xE2, CHR 0x81, CHR 0x9F],
      [CHR 0xE3, CHR 0x80, CHR 0x80],
      [CHR 0xEF, CHR 0xBB, CHR 0xBF]]"

text \<open>
  \<open>matchLength pats s\<close> is the length of the first of \<open>pats\<close> that \<open>s\<close> starts with, 0
  when it starts with none; \<open>strip pats s\<close> removes such starts for as long as there is
  one, which takes at most \<open>length s\<close> rounds since each removes a byte or more. The end
  of a string is stripped as the start of its reversal, against the reversed byte
  sequences.
\<close>

definition matchLength :: "string list \<Rightarrow> string \<Rightarrow> nat" where
  "matchLength pats s =
     (case find (\<lambda>p. take (length p) s = p) pats of None \<Rightarrow> 0 | Some p \<Rightarrow> length p)"

fun stripRounds :: "nat \<Rightarrow> string list \<Rightarrow> string \<Rightarrow> string" where
  "stripRounds 0 pats s = s"
| "stripRounds (Suc n) pats s =
     (if matchLength pats s = 0 then s
      else stripRounds n pats (drop (matchLength pats s) s))"

definition strip :: "string list \<Rightarrow> string \<Rightarrow> string" where
  "strip pats s = stripRounds (length s) pats s"

definition trim :: "string \<Rightarrow> string" where
  "trim s = rev (strip (map rev whiteSpace) (rev (strip whiteSpace s)))"

text \<open>\<^verbatim>\<open>!s || s.trim().length === 0\<close> for a string \<open>s\<close>: the empty string is falsy.\<close>

definition blank :: "string \<Rightarrow> bool" where
  "blank s = (s = [] \<or> length (trim s) = 0)"

text \<open>\<^verbatim>\<open>Array.prototype.join\<close> on strings.\<close>

fun join :: "string \<Rightarrow> string list \<Rightarrow> string" where
  "join sep [] = []"
| "join sep [x] = x"
| "join sep (x # y # ys) = x @ sep @ join sep (y # ys)"

text \<open>
  A \<^verbatim>\<open>Set<string>\<close> is the list of its members in insertion order; \<^verbatim>\<open>add\<close> of a
  member leaves it as it is, and iteration follows insertion order.
\<close>

definition set_add :: "'a \<Rightarrow> 'a list \<Rightarrow> 'a list" where
  "set_add x s = (if x \<in> set s then s else s @ [x])"

definition new_Set :: "'a list \<Rightarrow> 'a list" where
  "new_Set xs = fold set_add xs []"

section \<open>WorkflowRegistry: validation\<close>

text \<open>
  \<^verbatim>\<open>hasCircularDependencies\<close>: the body is the single statement \<^verbatim>\<open>return false\<close>,
  whatever the workflow.
\<close>

definition hasCircularDependencies :: "WorkflowDefinition \<Rightarrow> bool" where
  "hasCircularDependencies workflow = False"

text \<open>
  \<^verbatim>\<open>findOrphanedSteps\<close>: \<open>referencedSteps\<close> collects every entry of every step's
  \<^verbatim>\<open>next\<close> (a present array is truthy, also when empty), then every trigger's
  \<^verbatim>\<open>type\<close>; the result lists the ids of \<open>allSteps\<close>, in the set's order, that
  \<open>referencedSteps\<close> does not hold.
\<close>

definition referencedSteps :: "WorkflowDefinition \<Rightarrow> string list" where
  "referencedSteps workflow =
     fold (\<lambda>trigger refs. set_add (trg_type trigger) refs) (wf_triggers workflow)
       (fold (\<lambda>step refs.
                (case step_next step of
                   None \<Rightarrow> refs
                 | Some nexts \<Rightarrow> fold set_add nexts refs))
          (wf_steps workflow) [])"

definition findOrphanedSteps :: "WorkflowDefinition \<Rightarrow> string list" where
  "findOrphanedSteps workflow =
     (let allSteps = new_Set (map step_id (wf_steps workflow))
      in filter (\<lambda>stepId. stepId \<notin> set (referencedSteps workflow)) allSteps)"

text \<open>
  \<^verbatim>\<open>validateWorkflow\<close> of the registry. The checks \<^verbatim>\<open>!step.type\<close> and
  \<^verbatim>\<open>!step.config\<close> never fire on a value of the declared types (a non-empty string
  literal, an object) and add no error here; nothing in the \<^verbatim>\<open>try\<close> block raises on
  such a value, so the \<^verbatim>\<open>catch\<close> branch adds none either.
\<close>

definition triggerErrors :: "WorkflowTrigger \<Rightarrow> string list" where
  "triggerErrors trigger =
     (if blank (trg_type trigger) then [''Trigger type is required''] else []) @
     (if blank (trg_eventType trigger) then [''Event type is required for trigger''] else [])"

definition stepErrors :: "WorkflowStep \<Rightarrow> string list" where
  "stepErrors step =
     (if blank (step_id step) then [''Step ID is required''] else []) @
     (if blank (step_name step) then [''Step name is required''] else [])"

definition validateWorkflow :: "WorkflowDefinition \<Rightarrow> ValidationResult" where
  "validateWorkflow workflow =
     (let errs =
        (if blank (wf_name workflow) then [''Workflow name is required''] else []) @
        (if blank (wf_version workflow) then [''Workflow version is required''] else []) @
        (if wf_triggers workflow = [] then [''At least one trigger is required''] else []) @
        (if wf_steps workflow = [] then [''At least one step is required''] else []) @
        concat (map triggerErrors (wf_triggers workflow)) @
        concat (map stepErrors (wf_steps workflow)) @
        (if hasCircularDependencies workflow
         then [''Workflow contains circular dependencies''] else []);
        orphanedSteps = findOrphanedSteps workflow;
        warns = (if length orphanedSteps > 0
                 then [''Orphaned steps found: '' @ join '', '' orphanedSteps] else [])
      in \<lparr>isValid = (length errs = 0), errors = errs, warnings = warns\<rparr>)"

text \<open>
  The step graph in the specification's words: an edge from a step to each entry of its
  \<^verbatim>\<open>next\<close> and of its \<^verbatim>\<open>dependencies\<close>.
\<close>

definition stepEdges :: "WorkflowDefinition \<Rightarrow> (string \<times> string) list" where
  "stepEdges workflow =
     concat (map (\<lambda>step. map (Pair (step_id step))
                    ((case step_next step of None \<Rightarrow> [] | Some ns \<Rightarrow> ns) @
                     (case step_dependencies step of None \<Rightarrow> [] | Some ds \<Rightarrow> ds)))
               (wf_steps workflow))"

section \<open>WorkflowEngine\<close>

subsection \<open>Executions, events and step results\<close>

datatype exec_status = Pending | Running | Completed | Failed | Cancelled

record Event =
  ev_id :: string
  ev_type :: string
  ev_data :: json

text \<open>
  \<^verbatim>\<open>WorkflowExecution\<close>. Its \<^verbatim>\<open>result\<close> field is written nowhere in the engine and is
  left out.
\<close>

record WorkflowExecution =
  exec_id :: string
  exec_workflowId :: string
  exec_status :: exec_status
  exec_currentStep :: "string option"
  exec_context :: jsobject
  exec_error :: "string option"
  exec_startedAt :: int
  exec_completedAt :: "int option"
  exec_duration :: "int option"

record StepResult =
  res_success :: bool
  res_data :: "jsobject option"
  res_error :: "string option"
  res_nextSteps :: "string list option"

text \<open>
  The \<^verbatim>\<open>input\<close> of \<^verbatim>\<open>executeStep\<close> is the trigger event for a start step, the object
  \<^verbatim>\<open>{ error }\<close> for an error handler and absent for a queued step; the Step Runner is
  given \<^verbatim>\<open>input || execution.context\<close>.
\<close>

datatype step_input = TriggerInput Event | ErrorInput error | ContextInput jsobject

record WorkflowContext =
  wc_executionId :: string
  wc_workflowId :: string
  wc_stepId :: string
  wc_data :: step_input
  wc_execution :: WorkflowExecution

subsection \<open>The engine's state and its collaborators\<close>

text \<open>
  \<open>executions\<close> is the engine's \<^verbatim>\<open>Map\<close> of execution objects; an execution object is
  reached through its id, so a mutation by one operation is seen by every other one.
  \<open>emitted\<close> lists the calls of \<^verbatim>\<open>eventEmitter.emit\<close> (event name, execution id),
  \<open>runs\<close> the ids of the steps handed to the Step Runner, both oldest first;
  \<open>saves\<close>, \<open>clock\<close> and \<open>allocated\<close> count the state snapshots, the readings of
  \<^verbatim>\<open>new Date()\<close> and the generated execution ids. Calls of the logger are not modelled.
\<close>

record world =
  executions :: "string \<rightharpoonup> WorkflowExecution"
  emitted :: "(string \<times> string) list"
  runs :: "string list"
  saves :: nat
  clock :: nat
  allocated :: nat

text \<open>
  The injected collaborators, whose code is outside the engine: the registry's
  \<^verbatim>\<open>getWorkflow\<close> and the validator's \<^verbatim>\<open>validateWorkflow\<close>, which may raise;
  \<open>execute\<close>, the Step Runner; \<open>saveExecutionState\<close>, the state manager; \<open>now\<close>, the
  clock; \<open>generateExecutionId\<close>, the source of ids. The answer of each of the last four
  may depend on how many calls of it came before (its first argument).
  \<open>cancelRequests k\<close> lists the execution ids for which some other caller invokes
  \<^verbatim>\<open>cancelExecution\<close> while the engine awaits the Step Runner's call number \<open>k\<close>.
\<close>

record services =
  getWorkflow :: "string \<Rightarrow> error + WorkflowDefinition option"
  validator :: "WorkflowDefinition \<Rightarrow> error + ValidationResult"
  execute :: "nat \<Rightarrow> WorkflowStep \<Rightarrow> WorkflowContext \<Rightarrow> error + StepResult"
  saveExecutionState :: "nat \<Rightarrow> WorkflowExecution \<Rightarrow> error option"
  now :: "nat \<Rightarrow> int"
  generateExecutionId :: "nat \<Rightarrow> string"
  cancelRequests :: "nat \<Rightarrow> string list"

definition update_execution ::
  "string \<Rightarrow> (WorkflowExecution \<Rightarrow> WorkflowExecution) \<Rightarrow> world \<Rightarrow> world" where
  "update_execution eid f w =
     w\<lparr>executions := (executions w)(eid := map_option f (executions w eid))\<rparr>"

text \<open>An optional string in a condition: absent and empty are falsy.\<close>

definition truthy :: "string option \<Rightarrow> bool" where
  "truthy s = (case s of None \<Rightarrow> False | Some t \<Rightarrow> t \<noteq> [])"

subsection \<open>Cancellation\<close>

definition cancelExecution :: "services \<Rightarrow> string \<Rightarrow> world \<Rightarrow> world" where
  "cancelExecution C executionId w =
     (case executions w executionId of
        None \<Rightarrow> w
      | Some execution \<Rightarrow>
          if exec_status execution = Running
          then w\<lparr>executions := (executions w)(executionId \<mapsto>
                     execution\<lparr>exec_status := Cancelled,
                                exec_completedAt := Some (now C (clock w))\<rparr>),
                 clock := Suc (clock w),
                 emitted := emitted w @ [(''workflow.execution.cancelled'', executionId)]\<rparr>
          else w)"

definition getExecution :: "string \<Rightarrow> world \<Rightarrow> WorkflowExecution option" where
  "getExecution executionId w = executions w executionId"

subsection \<open>Start steps and pending steps\<close>

definition evaluateTriggerConditions :: "WorkflowTrigger \<Rightarrow> Event \<Rightarrow> bool" where
  "evaluateTriggerConditions trigger event =
     (case trg_conditions trigger of
        None \<Rightarrow> True
      | Some conditions \<Rightarrow> list_all (\<lambda>condition. True) conditions)"

definition findStartSteps :: "WorkflowDefinition \<Rightarrow> Event \<Rightarrow> string list" where
  "findStartSteps definition triggerEvent =
     map trg_type
       (filter (\<lambda>trigger. trg_eventType trigger = ev_type triggerEvent \<and>
                           evaluateTriggerConditions trigger triggerEvent)
          (wf_triggers definition))"

text \<open>
  Truthiness of a JSON value: \<^verbatim>\<open>null\<close>, \<^verbatim>\<open>false\<close>, 0 and the empty string are
  falsy, every array and object is truthy. (\<open>JNum\<close> holds the integers; the engine
  treats a fractional number as it treats any non-zero one.)
\<close>

definition js_truthy :: "json \<Rightarrow> bool" where
  "js_truthy v =
     (case v of
        JNull \<Rightarrow> False
      | JBool b \<Rightarrow> b
      | JNum n \<Rightarrow> n \<noteq> 0
      | JStr s \<Rightarrow> s \<noteq> []
      | JArr xs \<Rightarrow> True
      | JObj members \<Rightarrow> True)"

text \<open>
  \<^verbatim>\<open>getCompletedSteps\<close> returns \<^verbatim>\<open>execution.context.completedSteps || []\<close>: the
  value stored under that key when it is truthy, whatever its kind, and the empty array
  otherwise.
\<close>

definition getCompletedSteps :: "WorkflowExecution \<Rightarrow> json" where
  "getCompletedSteps execution =
     (case exec_context execution ''completedSteps'' of
        None \<Rightarrow> JArr []
      | Some v \<Rightarrow> if js_truthy v then v else JArr [])"

text \<open>
  \<^verbatim>\<open>completedSteps.includes(dep)\<close>: membership in an array (only a string element equals
  the string \<open>dep\<close>), the substring test on a string, and a \<^verbatim>\<open>TypeError\<close> on any other
  value, which has no method \<^verbatim>\<open>includes\<close>.
\<close>

fun isSubstring :: "string \<Rightarrow> string \<Rightarrow> bool" where
  "isSubstring dep [] = (dep = [])"
| "isSubstring dep (c # cs) = (take (length dep) (c # cs) = dep \<or> isSubstring dep cs)"

definition jsIncludes :: "json \<Rightarrow> string \<Rightarrow> error + bool" where
  "jsIncludes completedSteps dep =
     (case completedSteps of
        JArr xs \<Rightarrow> Inr (JStr dep \<in> set xs)
      | JStr s \<Rightarrow> Inr (isSubstring dep s)
      | _ \<Rightarrow> Inl (Error ''completedSteps.includes is not a function''))"

text \<open>
  \<^verbatim>\<open>Array.prototype.every\<close> and \<^verbatim>\<open>Array.prototype.filter\<close> with a callback that may
  raise: the elements are visited in order, \<^verbatim>\<open>every\<close> stops at the first \<^verbatim>\<open>false\<close>,
  and an error of the callback ends the call.
\<close>

fun every :: "('a \<Rightarrow> error + bool) \<Rightarrow> 'a list \<Rightarrow> error + bool" where
  "every p [] = Inr True"
| "every p (x # xs) =
     (case p x of
        Inl err \<Rightarrow> Inl err
      | Inr b \<Rightarrow> if b then every p xs else Inr False)"

fun filterArray :: "('a \<Rightarrow> error + bool) \<Rightarrow> 'a list \<Rightarrow> error + 'a list" where
  "filterArray p [] = Inr []"
| "filterArray p (x # xs) =
     (case p x of
        Inl err \<Rightarrow> Inl err
      | Inr b \<Rightarrow>
          (case filterArray p xs of
             Inl err \<Rightarrow> Inl err
           | Inr ys \<Rightarrow> Inr (if b then x # ys else ys)))"

definition findPendingSteps ::
    "WorkflowExecution \<Rightarrow> WorkflowDefinition \<Rightarrow> error + string list" where
  "findPendingSteps execution definition =
     (let completedSteps = getCompletedSteps execution;
          allSteps = map step_id (wf_steps definition)
      in filterArray (\<lambda>stepId.
           (case find (\<lambda>s. step_id s = stepId) (wf_steps definition) of
              None \<Rightarrow> Inr False
            | Some step \<Rightarrow>
                (case step_dependencies step of
                   Some deps \<Rightarrow> every (jsIncludes completedSteps) deps
                 | None \<Rightarrow> Inr True)))
         allSteps)"

definition canExecuteStep :: "WorkflowStep \<Rightarrow> WorkflowExecution option \<Rightarrow> bool" where
  "canExecuteStep step execution = True"

subsection \<open>Executing one step\<close>

text \<open>
  \<^verbatim>\<open>executeStep\<close> and \<^verbatim>\<open>handleStepError\<close> call each other for as long as error
  handlers fail and name further handlers, so both take fuel: the result \<open>None\<close> means
  that the fuel ran out (or that the ledger holds no execution \<open>eid\<close>; every caller below
  passes the id of a stored execution). A result \<open>Inl\<close> is a raised error.
  \<open>runnerContext\<close> is the context object handed to the Step Runner. While the Step
  Runner's call is awaited the requested cancellations run. An error of the Step Runner
  and an error of the state snapshot reach the same \<^verbatim>\<open>catch\<close> block.
\<close>

definition runnerContext ::
    "WorkflowExecution \<Rightarrow> string \<Rightarrow> step_input option \<Rightarrow> WorkflowContext" where
  "runnerContext execution stepId input =
     \<lparr>wc_executionId = exec_id execution,
      wc_workflowId = exec_workflowId execution,
      wc_stepId = stepId,
      wc_data = (case input of
                   Some i \<Rightarrow> i
                 | None \<Rightarrow> ContextInput (exec_context execution)),
      wc_execution = execution\<rparr>"

fun executeStep ::
    "nat \<Rightarrow> services \<Rightarrow> string \<Rightarrow> WorkflowDefinition \<Rightarrow> string \<Rightarrow> step_input option \<Rightarrow> world
       \<Rightarrow> ((error + StepResult) \<times> world) option"
  and handleStepError ::
    "nat \<Rightarrow> services \<Rightarrow> string \<Rightarrow> WorkflowDefinition \<Rightarrow> WorkflowStep \<Rightarrow> error \<Rightarrow> world
       \<Rightarrow> ((error + StepResult) \<times> world) option"
where
  "executeStep 0 C eid definition stepId input w = None"
| "executeStep (Suc n) C eid definition stepId input w =
     (case find (\<lambda>s. step_id s = stepId) (wf_steps definition) of
        None \<Rightarrow>
          Some (Inl (Error (''Step '' @ stepId @ '' not found in workflow '' @ wf_id definition)), w)
      | Some step \<Rightarrow>
          (let w1 = update_execution eid (\<lambda>ex. ex\<lparr>exec_currentStep := Some stepId\<rparr>) w
           in case executions w1 eid of
                None \<Rightarrow> None
              | Some execution \<Rightarrow>
                  (let k = length (runs w1);
                       outcome = execute C k step (runnerContext execution stepId input);
                       w2 = fold (cancelExecution C) (cancelRequests C k)
                              (w1\<lparr>runs := runs w1 @ [stepId]\<rparr>)
                   in case outcome of
                        Inl err \<Rightarrow>
                          if truthy (step_errorHandler step)
                          then handleStepError n C eid definition step err w2
                          else Some (Inl err, w2)
                      | Inr result \<Rightarrow>
                          (let w3 = (case res_data result of
                                       None \<Rightarrow> w2
                                     | Some d \<Rightarrow>
                                         update_execution eid
                                           (\<lambda>ex. ex\<lparr>exec_context := exec_context ex ++ d\<rparr>) w2)
                           in case executions w3 eid of
                                None \<Rightarrow> None
                              | Some saved \<Rightarrow>
                                  (case saveExecutionState C (saves w3) saved of
                                     None \<Rightarrow> Some (Inr result, w3\<lparr>saves := Suc (saves w3)\<rparr>)
                                   | Some err \<Rightarrow>
                                       if truthy (step_errorHandler step)
                                       then handleStepError n C eid definition step err
                                              (w3\<lparr>saves := Suc (saves w3)\<rparr>)
                                       else Some (Inl err, w3\<lparr>saves := Suc (saves w3)\<rparr>))))))"
| "handleStepError n C eid definition step err w =
     (case step_errorHandler step of
        None \<Rightarrow>
          Some (Inr \<lparr>res_success = False, res_data = None, res_error = Some (message err),
                     res_nextSteps = None\<rparr>, w)
      | Some handlerId \<Rightarrow>
          (case find (\<lambda>s. step_id s = handlerId) (wf_steps definition) of
             Some errorHandler \<Rightarrow> executeStep n C eid definition handlerId (Some (ErrorInput err)) w
           | None \<Rightarrow>
               Some (Inr \<lparr>res_success = False, res_data = None, res_error = Some (message err),
                          res_nextSteps = None\<rparr>, w)))"

subsection \<open>Walking the step graph\<close>

text \<open>
  The \<^verbatim>\<open>for\<close> loop over the start steps: each is executed with the trigger event as
  input, its result is dropped, and a raised error ends the loop.
\<close>

fun executeStartSteps ::
    "nat \<Rightarrow> services \<Rightarrow> string \<Rightarrow> WorkflowDefinition \<Rightarrow> string list \<Rightarrow> Event \<Rightarrow> world
       \<Rightarrow> ((error + unit) \<times> world) option" where
  "executeStartSteps n C eid definition [] triggerEvent w = Some (Inr (), w)"
| "executeStartSteps n C eid definition (step # rest) triggerEvent w =
     (case executeStep n C eid definition step (Some (TriggerInput triggerEvent)) w of
        None \<Rightarrow> None
      | Some (Inl err, w') \<Rightarrow> Some (Inl err, w')
      | Some (Inr result, w') \<Rightarrow> executeStartSteps n C eid definition rest triggerEvent w')"

text \<open>
  The \<^verbatim>\<open>while\<close> loop of \<^verbatim>\<open>processNextSteps\<close> on its queue: the head is shifted off,
  executed when the definition has such a step, and the \<^verbatim>\<open>nextSteps\<close> of its result
  are pushed at the end. The Step Runner can keep the queue non-empty for ever, hence the
  fuel.
\<close>

fun processQueue ::
    "nat \<Rightarrow> services \<Rightarrow> string \<Rightarrow> WorkflowDefinition \<Rightarrow> string list \<Rightarrow> world
       \<Rightarrow> ((error + unit) \<times> world) option" where
  "processQueue n C eid definition [] w = Some (Inr (), w)"
| "processQueue 0 C eid definition (stepId # pendingSteps) w = None"
| "processQueue (Suc n) C eid definition (stepId # pendingSteps) w =
     (case find (\<lambda>s. step_id s = stepId) (wf_steps definition) of
        None \<Rightarrow> processQueue n C eid definition pendingSteps w
      | Some step \<Rightarrow>
          if canExecuteStep step (executions w eid)
          then (case executeStep n C eid definition stepId None w of
                  None \<Rightarrow> None
                | Some (Inl err, w') \<Rightarrow> Some (Inl err, w')
                | Some (Inr result, w') \<Rightarrow>
                    processQueue n C eid definition
                      (pendingSteps @ (case res_nextSteps result of None \<Rightarrow> [] | Some ns \<Rightarrow> ns))
                      w')
          else processQueue n C eid definition pendingSteps w)"

definition processNextSteps ::
    "nat \<Rightarrow> services \<Rightarrow> string \<Rightarrow> WorkflowDefinition \<Rightarrow> world
       \<Rightarrow> ((error + unit) \<times> world) option" where
  "processNextSteps n C eid definition w =
     (case executions w eid of
        None \<Rightarrow> None
      | Some execution \<Rightarrow>
          (case findPendingSteps execution definition of
             Inl err \<Rightarrow> Some (Inl err, w)
           | Inr pendingSteps \<Rightarrow> processQueue n C eid definition pendingSteps w))"

text \<open>
  \<^verbatim>\<open>executeWorkflowSteps\<close>: the body of the \<^verbatim>\<open>try\<close> block up to the end of the walk is
  \<open>walk\<close>; the statements after it run when the walk returned, the \<^verbatim>\<open>catch\<close> block
  when it raised.
\<close>

definition walk ::
    "nat \<Rightarrow> services \<Rightarrow> string \<Rightarrow> WorkflowDefinition \<Rightarrow> Event \<Rightarrow> world
       \<Rightarrow> ((error + unit) \<times> world) option" where
  "walk n C eid definition triggerEvent w =
     (let w1 = update_execution eid (\<lambda>ex. ex\<lparr>exec_status := Running\<rparr>) w;
          startSteps = findStartSteps definition triggerEvent
      in if length startSteps = 0
         then Some (Inl (Error ''No matching trigger steps found''), w1)
         else (case executeStartSteps n C eid definition startSteps triggerEvent w1 of
                 None \<Rightarrow> None
               | Some (Inl err, w2) \<Rightarrow> Some (Inl err, w2)
               | Some (Inr u, w2) \<Rightarrow> processNextSteps n C eid definition w2))"

definition executeWorkflowSteps ::
    "nat \<Rightarrow> services \<Rightarrow> string \<Rightarrow> WorkflowDefinition \<Rightarrow> Event \<Rightarrow> world
       \<Rightarrow> ((error + unit) \<times> world) option" where
  "executeWorkflowSteps n C eid definition triggerEvent w =
     (case walk n C eid definition triggerEvent w of
        None \<Rightarrow> None
      | Some (Inr u, w') \<Rightarrow>
          (let t = now C (clock w')
           in Some (Inr (),
                (update_execution eid
                   (\<lambda>ex. ex\<lparr>exec_status := Completed, exec_completedAt := Some t,
                             exec_duration := Some (t - exec_startedAt ex)\<rparr>) w')
                \<lparr>clock := Suc (clock w'),
                 emitted := emitted w' @ [(''workflow.execution.completed'', eid)]\<rparr>))
      | Some (Inl err, w') \<Rightarrow>
          (let t = now C (clock w')
           in Some (Inl err,
                (update_execution eid
                   (\<lambda>ex. ex\<lparr>exec_status := Failed, exec_error := Some (message err),
                             exec_completedAt := Some t,
                             exec_duration := Some (t - exec_startedAt ex)\<rparr>) w')
                \<lparr>clock := Suc (clock w'),
                 emitted := emitted w' @ [(''workflow.execution.failed'', eid)]\<rparr>)))"

subsection \<open>Starting an execution\<close>

text \<open>
  \<^verbatim>\<open>executeWorkflow\<close>: lookup, validation, then the execution record, the
  \<^verbatim>\<open>started\<close> notification and the walk. Its \<^verbatim>\<open>catch\<close> block logs and raises the
  error again.
\<close>

definition executeWorkflow ::
    "nat \<Rightarrow> services \<Rightarrow> string \<Rightarrow> Event \<Rightarrow> jsobject option \<Rightarrow> world
       \<Rightarrow> ((error + WorkflowExecution) \<times> world) option" where
  "executeWorkflow n C workflowId triggerEvent context w =
     (case getWorkflow C workflowId of
        Inl err \<Rightarrow> Some (Inl err, w)
      | Inr None \<Rightarrow> Some (Inl (Error (''Workflow '' @ workflowId @ '' not found'')), w)
      | Inr (Some definition) \<Rightarrow>
          (case validator C definition of
             Inl err \<Rightarrow> Some (Inl err, w)
           | Inr validation \<Rightarrow>
               if \<not> isValid validation
               then Some (Inl (Error (''Workflow validation failed: '' @
                                        join '', '' (errors validation))), w)
               else
                 (let eid = generateExecutionId C (allocated w);
                      execution =
                        \<lparr>exec_id = eid, exec_workflowId = workflowId, exec_status = Pending,
                         exec_currentStep = None,
                         exec_context = (case context of Some c \<Rightarrow> c | None \<Rightarrow> Map.empty),
                         exec_error = None, exec_startedAt = now C (clock w),
                         exec_completedAt = None, exec_duration = None\<rparr>;
                      w1 = w\<lparr>executions := (executions w)(eid \<mapsto> execution),
                             allocated := Suc (allocated w),
                             clock := Suc (clock w),
                             emitted := emitted w @ [(''workflow.execution.started'', eid)]\<rparr>
                  in case executeWorkflowSteps n C eid definition triggerEvent w1 of
                       None \<Rightarrow> None
                     | Some (Inl err, w2) \<Rightarrow> Some (Inl err, w2)
                     | Some (Inr u, w2) \<Rightarrow>
                         (case executions w2 eid of
                            None \<Rightarrow> None
                          | Some final \<Rightarrow> Some (Inr final, w2)))))"

section \<open>SagaEngine\<close>

subsection \<open>Sagas and their execution context\<close>

datatype strategy = Forward | Backward | Mixed

record SagaStep =
  sstep_id :: string
  sstep_name :: string
  sstep_action :: string
  sstep_compensation :: "string option"
  sstep_dependencies :: "string list option"
  sstep_timeout :: "int option"

record CompensationPolicy =
  strategy :: strategy
  maxCompensations :: int
  parallelCompensation :: bool

record SagaDefinition =
  saga_id :: string
  saga_name :: string
  saga_steps :: "SagaStep list"
  compensationPolicy :: CompensationPolicy

datatype saga_status =
  SagaRunning | SagaCompleted | SagaFailed | SagaCompensated | SagaCompensationFailed
  | SagaCancelled

record FailedStep =
  fs_stepId :: string
  fs_stepName :: string
  fs_error :: string
  fs_timestamp :: int

text \<open>The \<^verbatim>\<open>executionContext\<close> object that \<^verbatim>\<open>startSaga\<close> creates.\<close>

record SagaExecution =
  sagaId :: string
  sagaName :: string
  status :: saga_status
  currentStep :: nat
  data :: jsobject
  completedSteps :: "string list"
  failedSteps :: "FailedStep list"
  startTime :: int
  compensationRequired :: bool

text \<open>
  What the saga engine asks of its runners: an action of a step, or a compensation action
  by its name.
\<close>

datatype invocation = StepAction SagaStep | CompensationAction string

text \<open>
  \<open>activeSagas\<close> is the engine's \<^verbatim>\<open>Map\<close>; \<open>saga_emitted\<close> lists the emitted events
  (name, execution id) and \<open>invoked\<close> the calls of the two runners, oldest first. The
  context object of a run is passed along explicitly: the run removes its entry from
  \<open>activeSagas\<close> before it returns, and no other operation is interleaved here.
\<close>

record saga_world =
  activeSagas :: "string \<rightharpoonup> SagaExecution"
  saga_emitted :: "(string \<times> string) list"
  invoked :: "invocation list"
  saga_clock :: nat
  saga_allocated :: nat

text \<open>
  The saga engine's collaborators: the orchestrator's \<^verbatim>\<open>executeStep\<close>, the
  compensation manager's \<^verbatim>\<open>executeCompensation\<close> (\<open>Some\<close> error when it raises), the
  clock and the source of ids. The first argument of a runner counts the runner calls
  made before.
\<close>

record saga_services =
  orchestratorExecuteStep :: "nat \<Rightarrow> SagaStep \<Rightarrow> jsobject \<Rightarrow> error + jsobject"
  executeCompensation :: "nat \<Rightarrow> string \<Rightarrow> jsobject \<Rightarrow> error option"
  saga_now :: "nat \<Rightarrow> int"
  saga_generateExecutionId :: "nat \<Rightarrow> string"

subsection \<open>Compensation\<close>

definition checkDependencies :: "string list \<Rightarrow> string list \<Rightarrow> bool" where
  "checkDependencies dependencies completed = list_all (\<lambda>dep. dep \<in> set completed) dependencies"

text \<open>
  The condition \<^verbatim>\<open>step.dependencies && !this.checkDependencies(...)\<close>; a present array
  is truthy, also when empty.
\<close>

definition dependenciesUnmet :: "SagaStep \<Rightarrow> string list \<Rightarrow> bool" where
  "dependenciesUnmet step completed =
     (case sstep_dependencies step of
        None \<Rightarrow> False
      | Some deps \<Rightarrow> \<not> checkDependencies deps completed)"

definition determineCompensationStrategy :: "CompensationPolicy \<Rightarrow> SagaExecution \<Rightarrow> strategy" where
  "determineCompensationStrategy policy executionContext = strategy policy"

text \<open>
  The loop of \<^verbatim>\<open>executeBackwardCompensation\<close> over the reversed \<^verbatim>\<open>completedSteps\<close>
  and the loop of \<^verbatim>\<open>executeForwardCompensation\<close> over the remaining steps. A step
  with no compensation or an empty one (falsy) is passed over; an error of a compensation
  is raised again and ends the loop.
\<close>

fun compensateCompleted ::
    "saga_services \<Rightarrow> SagaDefinition \<Rightarrow> SagaExecution \<Rightarrow> string list \<Rightarrow> saga_world
       \<Rightarrow> error option \<times> saga_world" where
  "compensateCompleted S sagaDefinition ctx [] w = (None, w)"
| "compensateCompleted S sagaDefinition ctx (stepId # rest) w =
     (case find (\<lambda>s. sstep_id s = stepId) (saga_steps sagaDefinition) of
        None \<Rightarrow> compensateCompleted S sagaDefinition ctx rest w
      | Some step \<Rightarrow>
          if truthy (sstep_compensation step)
          then (case sstep_compensation step of
                  None \<Rightarrow> compensateCompleted S sagaDefinition ctx rest w
                | Some action \<Rightarrow>
                    (case executeCompensation S (length (invoked w)) action (data ctx) of
                       Some err \<Rightarrow> (Some err, w\<lparr>invoked := invoked w @ [CompensationAction action]\<rparr>)
                     | None \<Rightarrow>
                         compensateCompleted S sagaDefinition ctx rest
                           (w\<lparr>invoked := invoked w @ [CompensationAction action]\<rparr>)))
          else compensateCompleted S sagaDefinition ctx rest w)"

definition executeBackwardCompensation ::
    "saga_services \<Rightarrow> SagaDefinition \<Rightarrow> SagaExecution \<Rightarrow> saga_world \<Rightarrow> error option \<times> saga_world" where
  "executeBackwardCompensation S sagaDefinition ctx w =
     compensateCompleted S sagaDefinition ctx (rev (completedSteps ctx)) w"

fun compensateRemaining ::
    "saga_services \<Rightarrow> SagaExecution \<Rightarrow> SagaStep list \<Rightarrow> saga_world \<Rightarrow> error option \<times> saga_world" where
  "compensateRemaining S ctx [] w = (None, w)"
| "compensateRemaining S ctx (step # rest) w =
     (if truthy (sstep_compensation step)
      then (case sstep_compensation step of
              None \<Rightarrow> compensateRemaining S ctx rest w
            | Some action \<Rightarrow>
                (case executeCompensation S (length (invoked w)) action (data ctx) of
                   Some err \<Rightarrow> (Some err, w\<lparr>invoked := invoked w @ [CompensationAction action]\<rparr>)
                 | None \<Rightarrow>
                     compensateRemaining S ctx rest
                       (w\<lparr>invoked := invoked w @ [CompensationAction action]\<rparr>)))
      else compensateRemaining S ctx rest w)"

definition executeForwardCompensation ::
    "saga_services \<Rightarrow> SagaDefinition \<Rightarrow> SagaExecution \<Rightarrow> saga_world \<Rightarrow> error option \<times> saga_world" where
  "executeForwardCompensation S sagaDefinition ctx w =
     compensateRemaining S ctx (drop (currentStep ctx + 1) (saga_steps sagaDefinition)) w"

text \<open>
  \<^verbatim>\<open>handleStepFailure\<close>: the first component of the result is the compensation error
  that the \<^verbatim>\<open>catch\<close> block raises again, if any. Strategy \<open>Mixed\<close> runs no compensation.
\<close>

definition handleStepFailure ::
    "saga_services \<Rightarrow> string \<Rightarrow> SagaDefinition \<Rightarrow> SagaExecution \<Rightarrow> SagaStep \<Rightarrow> error \<Rightarrow> saga_world
       \<Rightarrow> error option \<times> SagaExecution \<times> saga_world" where
  "handleStepFailure S executionId sagaDefinition ctx failedStep err w =
     (let compensationStrategy =
            determineCompensationStrategy (compensationPolicy sagaDefinition) ctx
      in case (if compensationStrategy = Backward
               then executeBackwardCompensation S sagaDefinition ctx w
               else if compensationStrategy = Forward
               then executeForwardCompensation S sagaDefinition ctx w
               else (None, w)) of
           (None, w') \<Rightarrow>
             (None, ctx\<lparr>status := SagaCompensated\<rparr>,
              w'\<lparr>saga_emitted := saga_emitted w' @ [(''saga.compensated'', executionId)]\<rparr>)
         | (Some compensationError, w') \<Rightarrow>
             (Some compensationError, ctx\<lparr>status := SagaCompensationFailed\<rparr>,
              w'\<lparr>saga_emitted :=
                    saga_emitted w' @ [(''saga.compensation_failed'', executionId)]\<rparr>))"

subsection \<open>Running a saga\<close>

text \<open>
  The \<^verbatim>\<open>for\<close> loop of \<^verbatim>\<open>executeSaga\<close> from index \<open>i\<close> on. A failed step is recorded,
  handed to \<open>handleStepFailure\<close>, and the loop is left; an error raised by
  \<open>handleStepFailure\<close> leaves the loop as a raised error.
\<close>

fun sagaLoop ::
    "saga_services \<Rightarrow> string \<Rightarrow> SagaDefinition \<Rightarrow> nat \<Rightarrow> SagaStep list \<Rightarrow> SagaExecution \<Rightarrow> saga_world
       \<Rightarrow> error option \<times> SagaExecution \<times> saga_world" where
  "sagaLoop S executionId sagaDefinition i [] ctx w = (None, ctx, w)"
| "sagaLoop S executionId sagaDefinition i (step # rest) ctx w =
     (let ctx1 = ctx\<lparr>currentStep := i\<rparr>
      in case (if dependenciesUnmet step (completedSteps ctx1)
               then Some (Error (''Dependencies not met for step: '' @ sstep_name step))
               else None) of
           Some err \<Rightarrow>
             handleStepFailure S executionId sagaDefinition
               (ctx1\<lparr>failedSteps := failedSteps ctx1 @
                       [\<lparr>fs_stepId = sstep_id step, fs_stepName = sstep_name step,
                         fs_error = message err, fs_timestamp = saga_now S (saga_clock w)\<rparr>]\<rparr>)
               step err (w\<lparr>saga_clock := Suc (saga_clock w)\<rparr>)
         | None \<Rightarrow>
             (let w1 = w\<lparr>invoked := invoked w @ [StepAction step]\<rparr>
              in case orchestratorExecuteStep S (length (invoked w)) step (data ctx1) of
                   Inr result \<Rightarrow>
                     sagaLoop S executionId sagaDefinition (Suc i) rest
                       (ctx1\<lparr>data := data ctx1 ++ result,
                              completedSteps := completedSteps ctx1 @ [sstep_id step]\<rparr>)
                       (w1\<lparr>saga_emitted := saga_emitted w1 @ [(''saga.step.completed'', executionId)]\<rparr>)
                 | Inl err \<Rightarrow>
                     handleStepFailure S executionId sagaDefinition
                       (ctx1\<lparr>failedSteps := failedSteps ctx1 @
                               [\<lparr>fs_stepId = sstep_id step, fs_stepName = sstep_name step,
                                 fs_error = message err,
                                 fs_timestamp = saga_now S (saga_clock w1)\<rparr>]\<rparr>)
                       step err (w1\<lparr>saga_clock := Suc (saga_clock w1)\<rparr>)))"

text \<open>
  \<^verbatim>\<open>executeSaga\<close>: after the loop the status becomes \<open>completed\<close> when no step failed;
  the outer \<^verbatim>\<open>catch\<close> block sets the status \<open>failed\<close>, emits \<open>saga.failed\<close> and raises
  the error again; the \<^verbatim>\<open>finally\<close> block removes the entry of \<open>activeSagas\<close>.
\<close>

definition executeSaga ::
    "saga_services \<Rightarrow> string \<Rightarrow> SagaDefinition \<Rightarrow> SagaExecution \<Rightarrow> saga_world
       \<Rightarrow> error option \<times> SagaExecution \<times> saga_world" where
  "executeSaga S executionId sagaDefinition ctx w =
     (case sagaLoop S executionId sagaDefinition 0 (saga_steps sagaDefinition) ctx w of
        (None, ctx', w') \<Rightarrow>
          if length (failedSteps ctx') = 0
          then (None, ctx'\<lparr>status := SagaCompleted\<rparr>,
                w'\<lparr>saga_emitted := saga_emitted w' @ [(''saga.completed'', executionId)],
                   activeSagas := (activeSagas w')(executionId := None)\<rparr>)
          else (None, ctx', w'\<lparr>activeSagas := (activeSagas w')(executionId := None)\<rparr>)
      | (Some err, ctx', w') \<Rightarrow>
          (Some err, ctx'\<lparr>status := SagaFailed\<rparr>,
           w'\<lparr>saga_emitted := saga_emitted w' @ [(''saga.failed'', executionId)],
              activeSagas := (activeSagas w')(executionId := None)\<rparr>))"

text \<open>
  \<^verbatim>\<open>startSaga\<close> returns the execution id or raises; the model also returns the context
  object as the run left it.
\<close>

definition startSaga ::
    "saga_services \<Rightarrow> SagaDefinition \<Rightarrow> jsobject \<Rightarrow> saga_world
       \<Rightarrow> (error + string) \<times> SagaExecution \<times> saga_world" where
  "startSaga S sagaDefinition initialData w =
     (let executionContext =
            \<lparr>sagaId = saga_id sagaDefinition, sagaName = saga_name sagaDefinition,
             status = SagaRunning, currentStep = 0, data = initialData, completedSteps = [],
             failedSteps = [], startTime = saga_now S (saga_clock w),
             compensationRequired = False\<rparr>;
          executionId = saga_generateExecutionId S (saga_allocated w);
          w1 = w\<lparr>activeSagas := (activeSagas w)(executionId \<mapsto> executionContext),
                 saga_clock := Suc (saga_clock w),
                 saga_allocated := Suc (saga_allocated w),
                 saga_emitted := saga_emitted w @ [(''saga.started'', executionId)]\<rparr>
      in case executeSaga S executionId sagaDefinition executionContext w1 of
           (None, ctx', w') \<Rightarrow> (Inr executionId, ctx', w')
         | (Some err, ctx', w') \<Rightarrow> (Inl err, ctx', w'))"

section \<open>Sample inputs\<close>

definition mkStep :: "string \<Rightarrow> string list option \<Rightarrow> string option \<Rightarrow> WorkflowStep" where
  "mkStep i nexts handler =
     \<lparr>step_id = i, step_name = i, step_type = Action, step_config = Map.empty,
      step_next = nexts, step_errorHandler = handler, step_retryPolicy = None,
      step_dependencies = None\<rparr>"

definition mkTrigger :: "string \<Rightarrow> string \<Rightarrow> WorkflowTrigger" where
  "mkTrigger t e =
     \<lparr>trg_type = t, trg_eventType = e, trg_filters = None, trg_conditions = None\<rparr>"

definition mkWorkflow :: "WorkflowTrigger list \<Rightarrow> WorkflowStep list \<Rightarrow> WorkflowDefinition" where
  "mkWorkflow ts ss =
     \<lparr>wf_id = ''wf'', wf_name = ''sample'', wf_version = ''1.0'', wf_description = None,
      wf_triggers = ts, wf_steps = ss, wf_metadata = Map.empty\<rparr>"

text \<open>Scenario C: \<open>step2\<close>'s \<^verbatim>\<open>next\<close> points back to \<open>step1\<close>.\<close>

definition cyclicWorkflow :: WorkflowDefinition where
  "cyclicWorkflow =
     mkWorkflow [mkTrigger ''step1'' ''order.created'']
       [mkStep ''step1'' (Some [''step2'']) None,
        mkStep ''step2'' (Some [''step1'']) None]"

text \<open>A step whose only reference is another step's \<^verbatim>\<open>errorHandler\<close>.\<close>

definition handlerWorkflow :: WorkflowDefinition where
  "handlerWorkflow =
     mkWorkflow [mkTrigger ''work'' ''order.created'']
       [mkStep ''work'' None (Some ''recover''),
        mkStep ''recover'' None None]"

text \<open>
  Sample collaborators of the workflow engine: a registry that knows one definition, the
  registry's own validation as the validator, a state manager that never fails, a clock
  that advances by 10 ms at each reading and a single execution id.
\<close>

definition okResult :: StepResult where
  "okResult = \<lparr>res_success = True, res_data = None, res_error = None, res_nextSteps = None\<rparr>"

definition sampleServices ::
    "(nat \<Rightarrow> WorkflowStep \<Rightarrow> WorkflowContext \<Rightarrow> error + StepResult) \<Rightarrow> (nat \<Rightarrow> string list)
       \<Rightarrow> WorkflowDefinition \<Rightarrow> services" where
  "sampleServices runner cancels d =
     \<lparr>getWorkflow = (\<lambda>i. if i = wf_id d then Inr (Some d) else Inr None),
      validator = (\<lambda>d'. Inr (validateWorkflow d')),
      execute = runner,
      saveExecutionState = (\<lambda>k ex. None),
      now = (\<lambda>k. 1000 + 10 * int k),
      generateExecutionId = (\<lambda>k. ''exec_1''),
      cancelRequests = cancels\<rparr>"

definition emptyWorld :: world where
  "emptyWorld =
     \<lparr>executions = Map.empty, emitted = [], runs = [], saves = 0, clock = 0, allocated = 0\<rparr>"

definition orderCreated :: Event where
  "orderCreated = \<lparr>ev_id = ''e1'', ev_type = ''order.created'', ev_data = JNull\<rparr>"

text \<open>An execution in status \<open>running\<close>, started at time 1000, alone in the ledger.\<close>

definition runningExecution :: WorkflowExecution where
  "runningExecution =
     \<lparr>exec_id = ''exec_1'', exec_workflowId = ''wf'', exec_status = Running,
      exec_currentStep = None, exec_context = Map.empty, exec_error = None,
      exec_startedAt = 1000, exec_completedAt = None, exec_duration = None\<rparr>"

definition runningWorld :: world where
  "runningWorld =
     \<lparr>executions = [''exec_1'' \<mapsto> runningExecution], emitted = [], runs = [], saves = 0,
      clock = 1, allocated = 1\<rparr>"

text \<open>Two triggers on the same event, each naming a start step.\<close>

definition twoStartWorkflow :: WorkflowDefinition where
  "twoStartWorkflow =
     mkWorkflow [mkTrigger ''step1'' ''order.created'', mkTrigger ''step2'' ''order.created'']
       [mkStep ''step1'' None None, mkStep ''step2'' None None]"

text \<open>
  Every step succeeds; \<^verbatim>\<open>cancelExecution('exec_1')\<close> is called while the first call of
  the Step Runner is awaited.
\<close>

definition cancelDuringFirst :: services where
  "cancelDuringFirst =
     sampleServices (\<lambda>k step ctx. Inr okResult) (\<lambda>k. if k = 0 then [''exec_1''] else [])
       twoStartWorkflow"

text \<open>One trigger, one step without dependencies; every step succeeds, nobody cancels.\<close>

definition singleStepWorkflow :: WorkflowDefinition where
  "singleStepWorkflow =
     mkWorkflow [mkTrigger ''step1'' ''order.created''] [mkStep ''step1'' None None]"

definition alwaysOk :: services where
  "alwaysOk = sampleServices (\<lambda>k step ctx. Inr okResult) (\<lambda>k. []) singleStepWorkflow"

text \<open>
  A step with a retry policy of three attempts and no error handler; the Step Runner
  fails at its first call only.
\<close>

definition retryWorkflow :: WorkflowDefinition where
  "retryWorkflow =
     mkWorkflow [mkTrigger ''step1'' ''order.created'']
       [(mkStep ''step1'' None None)
          \<lparr>step_retryPolicy :=
             Some \<lparr>maxAttempts = 3, backoff = Fixed, delay = 100, maxDelay = None\<rparr>\<rparr>]"

definition failsOnce :: services where
  "failsOnce =
     sampleServices (\<lambda>k step ctx. if k = 0 then Inl (Error ''boom'') else Inr okResult)
       (\<lambda>k. []) retryWorkflow"

text \<open>
  A step whose \<^verbatim>\<open>errorHandler\<close> names a step that the definition does not have; the
  Step Runner always fails.
\<close>

definition danglingWorkflow :: WorkflowDefinition where
  "danglingWorkflow =
     mkWorkflow [mkTrigger ''step1'' ''order.created''] [mkStep ''step1'' None (Some ''nowhere'')]"

definition alwaysFails :: services where
  "alwaysFails = sampleServices (\<lambda>k step ctx. Inl (Error ''boom'')) (\<lambda>k. []) danglingWorkflow"

text \<open>A definition that validation rejects: its name is empty.\<close>

definition namelessWorkflow :: WorkflowDefinition where
  "namelessWorkflow = singleStepWorkflow\<lparr>wf_name := []\<rparr>"

definition namelessServices :: services where
  "namelessServices = sampleServices (\<lambda>k step ctx. Inr okResult) (\<lambda>k. []) namelessWorkflow"

text \<open>
  Scenarios D and E: a saga of three steps with backward compensation; \<open>step1\<close> has the
  compensation \<open>undo1\<close>, the action of \<open>step2\<close> fails. In Scenario E \<open>undo1\<close> raises.
\<close>

definition mkSagaStep :: "string \<Rightarrow> string option \<Rightarrow> SagaStep" where
  "mkSagaStep i compensation =
     \<lparr>sstep_id = i, sstep_name = i, sstep_action = i, sstep_compensation = compensation,
      sstep_dependencies = None, sstep_timeout = None\<rparr>"

definition threeStepSaga :: SagaDefinition where
  "threeStepSaga =
     \<lparr>saga_id = ''saga'', saga_name = ''order'',
      saga_steps = [mkSagaStep ''step1'' (Some ''undo1''), mkSagaStep ''step2'' None,
                    mkSagaStep ''step3'' None],
      compensationPolicy =
        \<lparr>strategy = Backward, maxCompensations = 3, parallelCompensation = False\<rparr>\<rparr>"

definition sagaServices :: "error option \<Rightarrow> saga_services" where
  "sagaServices undoOutcome =
     \<lparr>orchestratorExecuteStep =
        (\<lambda>k step d. if sstep_id step = ''step2'' then Inl (Error ''payment declined'')
                     else Inr Map.empty),
      executeCompensation = (\<lambda>k action d. undoOutcome),
      saga_now = (\<lambda>k. 1000 + 10 * int k),
      saga_generateExecutionId = (\<lambda>k. ''saga_1'')\<rparr>"

definition emptySagaWorld :: saga_world where
  "emptySagaWorld =
     \<lparr>activeSagas = Map.empty, saga_emitted = [], invoked = [], saga_clock = 0,
      saga_allocated = 0\<rparr>"

text \<open>The ledger once the execution \<open>exec_1\<close> has completed.\<close>

definition finishedWorld :: world where
  "finishedWorld =
     update_execution ''exec_1''
       (\<lambda>ex. ex\<lparr>exec_status := Completed, exec_completedAt := Some 1010,
                 exec_duration := Some 10\<rparr>) runningWorld"

text \<open>The saga of Scenario D without its failing step.\<close>

definition twoStepSaga :: SagaDefinition where
  "twoStepSaga =
     threeStepSaga\<lparr>saga_steps := [mkSagaStep ''step1'' (Some ''undo1''), mkSagaStep ''step3'' None]\<rparr>"

section \<open>Auxiliary facts\<close>

subsection \<open>Sets as insertion-ordered lists\<close>

lemma set_fold_set_add: "set (fold set_add xs acc) = set xs \<union> set acc"
  by (induction xs arbitrary: acc) (auto simp: set_add_def)

lemma distinct_fold_set_add: "distinct acc \<Longrightarrow> distinct (fold set_add xs acc)"
  by (induction xs arbitrary: acc) (auto simp: set_add_def)

lemma set_fold_next:
  "set (fold (\<lambda>step refs. (case step_next step of None \<Rightarrow> refs
                            | Some nexts \<Rightarrow> fold set_add nexts refs)) steps acc)
   = set (concat (map (\<lambda>step. case step_next step of None \<Rightarrow> [] | Some ns \<Rightarrow> ns) steps))
     \<union> set acc"
  by (induction steps arbitrary: acc) (auto simp: set_fold_set_add split: option.splits)

lemma set_fold_triggers:
  "set (fold (\<lambda>trigger refs. set_add (trg_type trigger) refs) triggers acc)
   = set (map trg_type triggers) \<union> set acc"
  by (induction triggers arbitrary: acc) (auto simp: set_add_def)

lemma filterArray_all:
  "list_all (\<lambda>x. p x = Inr True) xs \<Longrightarrow> filterArray p xs = Inr xs"
  by (induction xs) simp_all

lemma find_step_id:
  "s \<in> set steps \<Longrightarrow> \<exists>t. find (\<lambda>u. step_id u = step_id s) steps = Some t \<and> t \<in> set steps"
  by (induction steps) auto


subsection \<open>The helpers of JavaScript on sample values\<close>

text \<open>
  A name made of a no-break space (U+00A0) and a line separator (U+2028) is blank, and
  white space inside a name stays.
\<close>

lemma trim_unicode_white_space:
  "trim [CHR 0xC2, CHR 0xA0, CHR 0xE2, CHR 0x80, CHR 0xA8] = [] \<and>
   blank [CHR 0xC2, CHR 0xA0, CHR 0xE2, CHR 0x80, CHR 0xA8] \<and>
   trim ('' a b '' @ [CHR 0xC2, CHR 0xA0]) = ''a b'' \<and>
   trim [CHR 0xC3, CHR 0xA0] = [CHR 0xC3, CHR 0xA0]"
  by code_simp

text \<open>
  \<open>completedSteps\<close> stored as a string gives a substring test; stored as a number it
  makes \<open>findPendingSteps\<close> raise as soon as a step has a dependency to look up.
\<close>

lemma completed_steps_of_other_kinds:
  "findPendingSteps
     (runningExecution\<lparr>exec_context := [''completedSteps'' \<mapsto> JStr ''step10'']\<rparr>)
     (mkWorkflow [] [(mkStep ''a'' None None)\<lparr>step_dependencies := Some [''step1'']\<rparr>,
                     (mkStep ''b'' None None)\<lparr>step_dependencies := Some [''step2'']\<rparr>])
     = Inr [''a''] \<and>
   findPendingSteps
     (runningExecution\<lparr>exec_context := [''completedSteps'' \<mapsto> JNum 7]\<rparr>)
     (mkWorkflow [] [mkStep ''a'' None None,
                     (mkStep ''b'' None None)\<lparr>step_dependencies := Some [''a'']\<rparr>])
     = Inl (Error ''completedSteps.includes is not a function'') \<and>
   findPendingSteps
     (runningExecution\<lparr>exec_context := [''completedSteps'' \<mapsto> JNum 7]\<rparr>)
     (mkWorkflow [] [mkStep ''a'' None None,
                     (mkStep ''b'' None None)\<lparr>step_dependencies := Some []\<rparr>])
     = Inr [''a'', ''b''] \<and>
   findPendingSteps
     (runningExecution\<lparr>exec_context := [''completedSteps'' \<mapsto> JNum 0]\<rparr>)
     (mkWorkflow [] [(mkStep ''b'' None None)\<lparr>step_dependencies := Some [''a'']\<rparr>])
     = Inr []"
  by code_simp

subsection \<open>Cancellation requests call no Step Runner\<close>

lemma runs_cancelExecution: "runs (cancelExecution C y w) = runs w"
  by (simp add: cancelExecution_def split: option.splits)

lemma runs_cancelRequests: "runs (fold (cancelExecution C) ys w) = runs w"
  by (induction ys arbitrary: w) (simp_all add: runs_cancelExecution)

subsection \<open>No operation of the walk removes an execution from the ledger\<close>

lemma dom_update_execution:
  "dom (executions (update_execution eid f w)) = dom (executions w)"
  by (auto simp: update_execution_def split: if_splits)

lemma dom_cancelExecution:
  "dom (executions (cancelExecution C y w)) = dom (executions w)"
  by (auto simp: cancelExecution_def split: option.splits if_splits)

lemma dom_cancelRequests:
  "dom (executions (fold (cancelExecution C) ys w)) = dom (executions w)"
  by (induction ys arbitrary: w) (simp_all add: dom_cancelExecution)

lemma handleStepError_dom:
  assumes step: "\<And>stepId input w r w'.
      executeStep n C eid definition stepId input w = Some (r, w') \<Longrightarrow>
      dom (executions w') = dom (executions w)"
    and run: "handleStepError n C eid definition step err w = Some (r, w')"
  shows "dom (executions w') = dom (executions w)"
proof (cases "step_errorHandler step")
  case None
  with run show ?thesis by simp
next
  case (Some handlerId)
  show ?thesis
  proof (cases "find (\<lambda>s. step_id s = handlerId) (wf_steps definition)")
    case None
    with Some run show ?thesis by simp
  next
    case found: (Some errorHandler)
    with Some run
    have "executeStep n C eid definition handlerId (Some (ErrorInput err)) w = Some (r, w')"
      by simp
    then show ?thesis by (rule step)
  qed
qed

lemma executeStep_dom:
  "executeStep n C eid definition stepId input w = Some (r, w') \<Longrightarrow>
   dom (executions w') = dom (executions w)"
proof (induction n arbitrary: stepId input w r w')
  case 0
  then show ?case by simp
next
  case (Suc n)
  have handler: "dom (executions w'') = dom (executions v)"
    if "handleStepError n C eid definition step err v = Some (r', w'')" for step err v r' w''
    using Suc.IH that by (rule handleStepError_dom)
  show ?case
  proof (cases "find (\<lambda>s. step_id s = stepId) (wf_steps definition)")
    case None
    with Suc.prems show ?thesis by simp
  next
    case (Some step)
    define w1 where "w1 = update_execution eid (\<lambda>ex. ex\<lparr>exec_currentStep := Some stepId\<rparr>) w"
    define w2 where "w2 = fold (cancelExecution C) (cancelRequests C (length (runs w1)))
                              (w1\<lparr>runs := runs w1 @ [stepId]\<rparr>)"
    have d2: "dom (executions w2) = dom (executions w)"
      by (simp add: w2_def w1_def dom_cancelRequests dom_update_execution)
    from Suc.prems Some obtain execution where live: "executions w1 eid = Some execution"
      by (auto simp: w1_def Let_def simp del: handleStepError.simps split: option.splits)
    show ?thesis
    proof (cases "execute C (length (runs w1)) step (runnerContext execution stepId input)")
      case (Inl err)
      have eq: "executeStep (Suc n) C eid definition stepId input w =
            (if truthy (step_errorHandler step)
             then handleStepError n C eid definition step err w2
             else Some (Inl err, w2))"
        using Some live Inl unfolding w1_def w2_def
        by (simp add: Let_def del: handleStepError.simps)
      show ?thesis
      proof (cases "truthy (step_errorHandler step)")
        case True
        with Suc.prems eq have "handleStepError n C eid definition step err w2 = Some (r, w')"
          by (simp del: handleStepError.simps executeStep.simps)
        from handler [OF this] d2 show ?thesis by simp
      next
        case False
        with Suc.prems eq have "w' = w2"
          by (simp del: handleStepError.simps executeStep.simps)
        with d2 show ?thesis by simp
      qed
    next
      case (Inr result)
      define w3 where "w3 = (case res_data result of
                               None \<Rightarrow> w2
                             | Some d \<Rightarrow>
                                 update_execution eid
                                   (\<lambda>ex. ex\<lparr>exec_context := exec_context ex ++ d\<rparr>) w2)"
      define w4 where "w4 = w3\<lparr>saves := Suc (saves w3)\<rparr>"
      have d4: "dom (executions w4) = dom (executions w)"
        using d2 by (simp add: w4_def w3_def dom_update_execution split: option.splits)
      from Suc.prems Some live Inr obtain saved where saved: "executions w3 eid = Some saved"
        by (auto simp: w1_def w2_def w3_def Let_def simp del: handleStepError.simps
            split: option.splits)
      have eq: "executeStep (Suc n) C eid definition stepId input w =
            (case saveExecutionState C (saves w3) saved of
               None \<Rightarrow> Some (Inr result, w4)
             | Some err \<Rightarrow>
                 if truthy (step_errorHandler step)
                 then handleStepError n C eid definition step err w4
                 else Some (Inl err, w4))"
        using Some live Inr saved unfolding w1_def w2_def w3_def w4_def
        by (simp add: Let_def del: handleStepError.simps)
      show ?thesis
      proof (cases "saveExecutionState C (saves w3) saved")
        case None
        with Suc.prems eq have "w' = w4"
          by (simp del: handleStepError.simps executeStep.simps)
        with d4 show ?thesis by simp
      next
        case failed: (Some err)
        show ?thesis
        proof (cases "truthy (step_errorHandler step)")
          case True
          with Suc.prems eq failed
          have "handleStepError n C eid definition step err w4 = Some (r, w')"
            by (simp del: handleStepError.simps executeStep.simps)
          from handler [OF this] d4 show ?thesis by simp
        next
          case False
          with Suc.prems eq failed have "w' = w4"
            by (simp del: handleStepError.simps executeStep.simps)
          with d4 show ?thesis by simp
        qed
      qed
    qed
  qed
qed

lemma executeStartSteps_dom:
  "executeStartSteps n C eid definition startSteps triggerEvent w = Some (r, w') \<Longrightarrow>
   dom (executions w') = dom (executions w)"
proof (induction startSteps arbitrary: w)
  case Nil
  then show ?case by simp
next
  case (Cons step rest)
  from Cons.prems obtain r1 w1
    where first: "executeStep n C eid definition step (Some (TriggerInput triggerEvent)) w
                    = Some (r1, w1)"
    by (auto split: option.splits)
  note d1 = executeStep_dom [OF first]
  show ?case
  proof (cases r1)
    case (Inl err)
    with Cons.prems first have "w' = w1" by simp
    with d1 show ?thesis by simp
  next
    case (Inr result)
    with Cons.prems first
    have "executeStartSteps n C eid definition rest triggerEvent w1 = Some (r, w')" by simp
    from Cons.IH [OF this] d1 show ?thesis by simp
  qed
qed

lemma processQueue_dom:
  "processQueue n C eid definition pendingSteps w = Some (r, w') \<Longrightarrow>
   dom (executions w') = dom (executions w)"
proof (induction n arbitrary: pendingSteps w)
  case 0
  then show ?case by (cases pendingSteps) simp_all
next
  case (Suc n)
  show ?case
  proof (cases pendingSteps)
    case Nil
    with Suc.prems show ?thesis by simp
  next
    case (Cons stepId rest)
    show ?thesis
    proof (cases "find (\<lambda>s. step_id s = stepId) (wf_steps definition)")
      case None
      with Suc.prems Cons have "processQueue n C eid definition rest w = Some (r, w')"
        by simp
      then show ?thesis by (rule Suc.IH)
    next
      case (Some step)
      with Suc.prems Cons obtain r1 w1
        where first: "executeStep n C eid definition stepId None w = Some (r1, w1)"
        by (auto simp: canExecuteStep_def split: option.splits)
      note d1 = executeStep_dom [OF first]
      show ?thesis
      proof (cases r1)
        case (Inl err)
        with Suc.prems Cons Some first have "w' = w1"
          by (simp add: canExecuteStep_def)
        with d1 show ?thesis by simp
      next
        case (Inr result)
        with Suc.prems Cons Some first
        have "processQueue n C eid definition
                (rest @ (case res_nextSteps result of None \<Rightarrow> [] | Some ns \<Rightarrow> ns)) w1
              = Some (r, w')"
          by (simp add: canExecuteStep_def)
        from Suc.IH [OF this] d1 show ?thesis by simp
      qed
    qed
  qed
qed

lemma walk_dom:
  assumes "walk n C eid definition triggerEvent w = Some (r, w')"
  shows "dom (executions w') = dom (executions w)"
proof -
  define w1 where "w1 = update_execution eid (\<lambda>ex. ex\<lparr>exec_status := Running\<rparr>) w"
  have d1: "dom (executions w1) = dom (executions w)"
    by (simp add: w1_def dom_update_execution)
  show ?thesis
  proof (cases "length (findStartSteps definition triggerEvent) = 0")
    case True
    with assms have "w' = w1" by (simp add: walk_def w1_def Let_def)
    with d1 show ?thesis by simp
  next
    case False
    with assms obtain r2 w2
      where started: "executeStartSteps n C eid definition
                        (findStartSteps definition triggerEvent) triggerEvent w1 = Some (r2, w2)"
      by (auto simp: walk_def w1_def Let_def split: option.splits)
    note d2 = executeStartSteps_dom [OF started]
    show ?thesis
    proof (cases r2)
      case (Inl err)
      with assms False started have "w' = w2" by (simp add: walk_def w1_def Let_def)
      with d1 d2 show ?thesis by simp
    next
      case (Inr u)
      with assms False started
      have next_steps: "processNextSteps n C eid definition w2 = Some (r, w')"
        by (simp add: walk_def w1_def Let_def)
      then obtain execution where live: "executions w2 eid = Some execution"
        by (auto simp: processNextSteps_def split: option.splits)
      show ?thesis
      proof (cases "findPendingSteps execution definition")
        case failed: (Inl err)
        with next_steps live have "w' = w2" by (simp add: processNextSteps_def)
        with d1 d2 show ?thesis by simp
      next
        case pending: (Inr pendingSteps)
        with next_steps live
        have "processQueue n C eid definition pendingSteps w2 = Some (r, w')"
          by (simp add: processNextSteps_def)
        from processQueue_dom [OF this] d1 d2 show ?thesis by simp
      qed
    qed
  qed
qed


subsection \<open>A saga whose steps all succeed\<close>

lemma sagaLoop_all_succeed:
  assumes "list_all (\<lambda>s. \<forall>k d. \<exists>res. orchestratorExecuteStep S k s d = Inr res) steps"
    and "list_all (\<lambda>s. sstep_dependencies s = None) steps"
  shows "(case sagaLoop S executionId sagaDefinition i steps ctx w of
            (raised, ctx', w') \<Rightarrow>
              raised = None \<and> status ctx' = status ctx \<and> failedSteps ctx' = failedSteps ctx \<and>
              completedSteps ctx' = completedSteps ctx @ map sstep_id steps \<and>
              invoked w' = invoked w @ map StepAction steps \<and>
              activeSagas w' = activeSagas w \<and>
              saga_emitted w' = saga_emitted w @
                 map (\<lambda>s. (''saga.step.completed'', executionId)) steps)"
  using assms
proof (induction steps arbitrary: i ctx w)
  case Nil
  then show ?case by simp
next
  case (Cons step rest)
  from Cons.prems obtain res where
    res: "orchestratorExecuteStep S (length (invoked w)) step (data (ctx\<lparr>currentStep := i\<rparr>)) = Inr res"
    by auto
  from Cons.prems
  have runs: "list_all (\<lambda>s. \<forall>k d. \<exists>res. orchestratorExecuteStep S k s d = Inr res) rest"
    and rest: "list_all (\<lambda>s. sstep_dependencies s = None) rest"
    and nodeps: "sstep_dependencies step = None" by simp_all
  show ?case
    using res nodeps Cons.IH [OF runs rest, where i = "Suc i"
        and ctx = "ctx\<lparr>currentStep := i, data := data ctx ++ res,
              completedSteps := completedSteps ctx @ [sstep_id step]\<rparr>"
        and w = "w\<lparr>invoked := invoked w @ [StepAction step],
            saga_emitted := saga_emitted w @ [(''saga.step.completed'', executionId)]\<rparr>"]
    by (simp add: dependenciesUnmet_def Let_def split: prod.splits)
qed

section \<open>Results: validation\<close>

text \<open>
  C1 (cycle detection), at Scenario C's workflow: \<open>step1 \<rightarrow> step2 \<rightarrow> step1\<close> is a cycle
  of the step graph, yet \<open>hasCircularDependencies\<close> answers false and
  \<open>validateWorkflow\<close> reports the definition valid, with no error.
\<close>

theorem cyclic_workflow_passes_validation:
  "(''step1'', ''step2'') \<in> set (stepEdges cyclicWorkflow) \<and>
   (''step2'', ''step1'') \<in> set (stepEdges cyclicWorkflow) \<and>
   hasCircularDependencies cyclicWorkflow = False \<and>
   isValid (validateWorkflow cyclicWorkflow) = True \<and>
   errors (validateWorkflow cyclicWorkflow) = []"
  by code_simp

text \<open>
  C6 (orphan detection), at a workflow whose step \<open>recover\<close> is the \<^verbatim>\<open>errorHandler\<close>
  of step \<open>work\<close>: \<open>findOrphanedSteps\<close> still lists \<open>recover\<close> as orphaned.
\<close>

theorem error_handler_reported_orphaned:
  "map step_errorHandler (wf_steps handlerWorkflow) = [Some ''recover'', None] \<and>
   findOrphanedSteps handlerWorkflow = [''recover'']"
  by (simp add: handlerWorkflow_def mkWorkflow_def mkStep_def mkTrigger_def
      findOrphanedSteps_def referencedSteps_def new_Set_def set_add_def)

text \<open>
  What \<open>findOrphanedSteps\<close> computes (with C6): the orphaned steps are the step ids that
  are no entry of any step's \<^verbatim>\<open>next\<close>, the step's own included, and no trigger's
  \<^verbatim>\<open>type\<close>; each is listed once.
\<close>

theorem orphaned_steps_characterised:
  "set (findOrphanedSteps workflow) =
     set (map step_id (wf_steps workflow)) -
       (set (concat (map (\<lambda>step. case step_next step of None \<Rightarrow> [] | Some ns \<Rightarrow> ns)
                       (wf_steps workflow)))
        \<union> set (map trg_type (wf_triggers workflow))) \<and>
   distinct (findOrphanedSteps workflow)"
proof -
  have refs: "set (referencedSteps workflow) =
      set (concat (map (\<lambda>step. case step_next step of None \<Rightarrow> [] | Some ns \<Rightarrow> ns)
                       (wf_steps workflow)))
        \<union> set (map trg_type (wf_triggers workflow))"
    unfolding referencedSteps_def set_fold_triggers set_fold_next by auto
  have ids: "set (new_Set (map step_id (wf_steps workflow))) = set (map step_id (wf_steps workflow))"
    by (simp add: new_Set_def set_fold_set_add)
  have "distinct (new_Set (map step_id (wf_steps workflow)))"
    by (simp add: new_Set_def distinct_fold_set_add)
  then show ?thesis
    unfolding findOrphanedSteps_def Let_def using refs ids by auto
qed

section \<open>Results: the workflow engine\<close>

text \<open>
  C2 (terminal states are final), at a workflow with two start steps whose execution is
  cancelled while the first step runs. After that step the status is \<open>cancelled\<close>; the
  engine still runs \<open>step2\<close> and the pending steps, and when the walk ends the status is
  \<open>completed\<close>: the \<open>cancelled\<close> notification is followed by a \<open>completed\<close> one.
\<close>

theorem cancelled_execution_overwritten:
  "(case executeStep 1 cancelDuringFirst ''exec_1'' twoStartWorkflow ''step1''
           (Some (TriggerInput orderCreated)) runningWorld of
      Some (Inr r, w) \<Rightarrow> map_option exec_status (getExecution ''exec_1'' w) = Some Cancelled
    | _ \<Rightarrow> False) \<and>
   (case executeWorkflow 5 cancelDuringFirst ''wf'' orderCreated None emptyWorld of
      Some (Inr ex, w) \<Rightarrow>
        exec_status ex = Completed \<and>
        emitted w = [(''workflow.execution.started'', ''exec_1''),
                     (''workflow.execution.cancelled'', ''exec_1''),
                     (''workflow.execution.completed'', ''exec_1'')] \<and>
        runs w = [''step1'', ''step2'', ''step1'', ''step2'']
    | _ \<Rightarrow> False)"
  by code_simp

text \<open>
  C5 (duration of a terminal execution), at a running execution started at time 1000 and
  cancelled at time 1010: \<open>cancelExecution\<close> sets the status \<open>cancelled\<close> and
  \<open>completedAt\<close>, and leaves \<open>duration\<close> unset.
\<close>

theorem cancel_leaves_duration_unset:
  "map_option (\<lambda>ex. (exec_status ex, exec_startedAt ex, exec_completedAt ex, exec_duration ex))
     (getExecution ''exec_1'' (cancelExecution alwaysOk ''exec_1'' runningWorld))
   = Some (Cancelled, 1000, Some 1010, None)"
  by code_simp

text \<open>
  C7 (pending steps), at a workflow of one start step without dependencies: after the
  start step has run, \<open>findPendingSteps\<close> returns it again, and the walk hands it to the
  Step Runner a second time.
\<close>

theorem start_step_executed_twice:
  "findPendingSteps (runningExecution\<lparr>exec_currentStep := Some ''step1''\<rparr>) singleStepWorkflow
     = Inr [''step1''] \<and>
   (case executeWorkflow 5 alwaysOk ''wf'' orderCreated None emptyWorld of
      Some (Inr ex, w) \<Rightarrow> runs w = [''step1'', ''step1''] \<and> exec_status ex = Completed
    | _ \<Rightarrow> False)"
  by code_simp

text \<open>
  C8 (retry policy), at a step \<open>step1\<close> that carries a retry policy of three attempts
  and whose Step Runner fails at the first call only (a second call would succeed):
  \<open>executeStep\<close> raises the first error after a single call of the Step Runner; the
  step is not retried.
\<close>

theorem retry_policy_not_honoured:
  "map step_retryPolicy (wf_steps retryWorkflow)
     = [Some \<lparr>maxAttempts = 3, backoff = Fixed, delay = 100, maxDelay = None\<rparr>] \<and>
   map_option (map_sum message res_success \<circ> fst)
       (executeStep 5 failsOnce ''exec_1'' retryWorkflow ''step1'' None runningWorld)
     = Some (Inl ''boom'') \<and>
   map_option (runs \<circ> snd)
       (executeStep 5 failsOnce ''exec_1'' retryWorkflow ''step1'' None runningWorld)
     = Some [''step1''] \<and>
   map_sum message res_success
       (execute failsOnce 1
          ((mkStep ''step1'' None None)
             \<lparr>step_retryPolicy :=
                Some \<lparr>maxAttempts = 3, backoff = Fixed, delay = 100, maxDelay = None\<rparr>\<rparr>)
          (runnerContext runningExecution ''step1'' None))
     = Inr True"
  by code_simp

text \<open>
  C9 (no execution record from a bad request): when the lookup raises, the definition is
  absent or validation reports it invalid, \<open>executeWorkflow\<close> raises an error and leaves
  the whole state as it was, whatever the fuel: the ledger \<open>executions\<close>, the count of
  allocated ids and the list of emitted notifications are unchanged.
\<close>

theorem rejected_request_leaves_no_trace:
  assumes "(\<exists>e. getWorkflow C workflowId = Inl e) \<or>
           getWorkflow C workflowId = Inr None \<or>
           (\<exists>definition validation.
              getWorkflow C workflowId = Inr (Some definition) \<and>
              validator C definition = Inr validation \<and> \<not> isValid validation)"
  shows "\<exists>err. executeWorkflow n C workflowId triggerEvent context w = Some (Inl err, w)"
  using assms by (auto simp: executeWorkflow_def)

theorem rejected_request_leaves_no_trace_witness:
  "(\<exists>err. executeWorkflow 5 alwaysOk ''unknown'' orderCreated None emptyWorld
            = Some (Inl err, emptyWorld)) \<and>
   (\<exists>err. executeWorkflow 5 namelessServices ''wf'' orderCreated None emptyWorld
            = Some (Inl err, emptyWorld))"
proof -
  have "getWorkflow alwaysOk ''unknown'' = Inr None"
    by (simp add: alwaysOk_def sampleServices_def singleStepWorkflow_def mkWorkflow_def)
  then have absent:
    "(\<exists>e. getWorkflow alwaysOk ''unknown'' = Inl e) \<or>
     getWorkflow alwaysOk ''unknown'' = Inr None \<or>
     (\<exists>definition validation.
        getWorkflow alwaysOk ''unknown'' = Inr (Some definition) \<and>
        validator alwaysOk definition = Inr validation \<and> \<not> isValid validation)"
    by simp
  have "getWorkflow namelessServices ''wf'' = Inr (Some namelessWorkflow) \<and>
        validator namelessServices namelessWorkflow = Inr (validateWorkflow namelessWorkflow) \<and>
        \<not> isValid (validateWorkflow namelessWorkflow)"
    by (simp add: namelessServices_def sampleServices_def namelessWorkflow_def
        singleStepWorkflow_def mkWorkflow_def validateWorkflow_def blank_def Let_def)
  then have invalid:
    "(\<exists>e. getWorkflow namelessServices ''wf'' = Inl e) \<or>
     getWorkflow namelessServices ''wf'' = Inr None \<or>
     (\<exists>definition validation.
        getWorkflow namelessServices ''wf'' = Inr (Some definition) \<and>
        validator namelessServices definition = Inr validation \<and> \<not> isValid validation)"
    by blast
  from rejected_request_leaves_no_trace [OF absent] rejected_request_leaves_no_trace [OF invalid]
  show ?thesis by blast
qed

text \<open>
  C10 (error handler that does not exist): when the Step Runner fails on a step whose
  \<^verbatim>\<open>errorHandler\<close> is a non-empty id of no step of the definition, \<open>executeStep\<close> raises nothing and
  returns a result with \<open>success = false\<close> and the error's message; the walk goes on, and
  in the sample run where the only step always fails the execution ends \<open>completed\<close>
  with no error recorded.
\<close>

theorem dangling_error_handler_absorbed:
  assumes "find (\<lambda>s. step_id s = stepId) (wf_steps definition) = Some step"
    and "executions w eid = Some execution"
    and "execute C (length (runs w)) step
           (runnerContext (execution\<lparr>exec_currentStep := Some stepId\<rparr>) stepId input) = Inl err"
    and "step_errorHandler step = Some handlerId"
    and "handlerId \<noteq> []"
    and "find (\<lambda>s. step_id s = handlerId) (wf_steps definition) = None"
  shows "(\<exists>w'. runs w' = runs w @ [stepId] \<and>
            executeStep (Suc n) C eid definition stepId input w =
              Some (Inr \<lparr>res_success = False, res_data = None, res_error = Some (message err),
                         res_nextSteps = None\<rparr>, w')) \<and>
         (case executeWorkflow 5 alwaysFails ''wf'' orderCreated None emptyWorld of
            Some (Inr ex, w') \<Rightarrow>
              exec_status ex = Completed \<and> exec_error ex = None \<and>
              runs w' = [''step1'', ''step1'']
          | _ \<Rightarrow> False)"
proof -
  let ?w' = "fold (cancelExecution C) (cancelRequests C (length (runs w)))
               ((update_execution eid (\<lambda>ex. ex\<lparr>exec_currentStep := Some stepId\<rparr>) w)
                  \<lparr>runs := runs w @ [stepId]\<rparr>)"
  have run: "(case executeWorkflow 5 alwaysFails ''wf'' orderCreated None emptyWorld of
            Some (Inr ex, w') \<Rightarrow>
              exec_status ex = Completed \<and> exec_error ex = None \<and>
              runs w' = [''step1'', ''step1'']
          | _ \<Rightarrow> False)"
    by code_simp
  have grown: "runs ?w' = runs w @ [stepId]"
    by (simp add: runs_cancelRequests)
  have "executeStep (Suc n) C eid definition stepId input w =
           Some (Inr \<lparr>res_success = False, res_data = None, res_error = Some (message err),
                      res_nextSteps = None\<rparr>, ?w')"
    using assms by (simp add: update_execution_def Let_def truthy_def)
  with grown run show ?thesis by blast
qed

theorem dangling_error_handler_absorbed_witness:
  "map_option (map_sum message (\<lambda>r. (res_success r, res_error r)) \<circ> fst)
       (executeStep (Suc 0) alwaysFails ''exec_1'' danglingWorkflow ''step1'' None runningWorld)
     = Some (Inr (False, Some ''boom''))"
proof -
  have found: "find (\<lambda>s. step_id s = ''step1'') (wf_steps danglingWorkflow)
      = Some (mkStep ''step1'' None (Some ''nowhere''))"
    by (simp add: danglingWorkflow_def mkWorkflow_def mkStep_def)
  have live: "executions runningWorld ''exec_1'' = Some runningExecution"
    by (simp add: runningWorld_def)
  have fails: "execute alwaysFails (length (runs runningWorld)) (mkStep ''step1'' None (Some ''nowhere''))
      (runnerContext (runningExecution\<lparr>exec_currentStep := Some ''step1''\<rparr>) ''step1'' None)
        = Inl (Error ''boom'')"
    by (simp add: alwaysFails_def sampleServices_def)
  have handler: "step_errorHandler (mkStep ''step1'' None (Some ''nowhere'')) = Some ''nowhere''"
    by (simp add: mkStep_def)
  have named: "''nowhere'' \<noteq> []"
    by simp
  have dangling: "find (\<lambda>s. step_id s = ''nowhere'') (wf_steps danglingWorkflow) = None"
    by (simp add: danglingWorkflow_def mkWorkflow_def mkStep_def)
  from dangling_error_handler_absorbed [OF found live fails handler named dangling, of 0]
  show ?thesis by (auto simp del: executeStep.simps)
qed

text \<open>
  How the walk ends (with C2 and C5): whenever \<open>executeWorkflowSteps\<close> ends, whatever
  cancellations were requested meanwhile, the status of the execution is \<open>completed\<close>
  when it returned and \<open>failed\<close> when it raised, \<open>completedAt\<close> is the clock reading
  taken then, and \<open>duration\<close> is \<open>completedAt - startedAt\<close>.
\<close>

theorem walk_end_status_and_duration:
  assumes run: "executeWorkflowSteps n C eid definition triggerEvent w = Some (r, w')"
    and live: "executions w eid = Some execution"
  shows "\<exists>final. executions w' eid = Some final \<and>
           exec_status final = (if isl r then Failed else Completed) \<and>
           exec_completedAt final = Some (now C (clock w' - 1)) \<and>
           exec_duration final = Some (now C (clock w' - 1) - exec_startedAt final)"
proof -
  from run obtain r1 w1 where walked: "walk n C eid definition triggerEvent w = Some (r1, w1)"
    by (auto simp: executeWorkflowSteps_def split: option.splits)
  from walk_dom [OF walked] live obtain ex1 where ex1: "executions w1 eid = Some ex1"
    by (metis domD domI)
  show ?thesis
  proof (cases r1)
    case (Inl err)
    with run walked ex1 show ?thesis
      by (auto simp: executeWorkflowSteps_def update_execution_def Let_def)
  next
    case (Inr u)
    with run walked ex1 show ?thesis
      by (auto simp: executeWorkflowSteps_def update_execution_def Let_def)
  qed
qed

theorem walk_end_status_and_duration_witness:
  "(case executeWorkflowSteps 5 cancelDuringFirst ''exec_1'' twoStartWorkflow orderCreated
           runningWorld of
      Some (r, w') \<Rightarrow>
        (case executions w' ''exec_1'' of
           Some final \<Rightarrow>
             exec_status final = (if isl r then Failed else Completed) \<and>
             exec_duration final = Some (now cancelDuringFirst (clock w' - 1) - exec_startedAt final)
         | None \<Rightarrow> False)
    | None \<Rightarrow> False)"
proof -
  have "executeWorkflowSteps 5 cancelDuringFirst ''exec_1'' twoStartWorkflow orderCreated
          runningWorld \<noteq> None"
    by code_simp
  then obtain r w' where run:
    "executeWorkflowSteps 5 cancelDuringFirst ''exec_1'' twoStartWorkflow orderCreated
       runningWorld = Some (r, w')"
    by auto
  have live: "executions runningWorld ''exec_1'' = Some runningExecution"
    by (simp add: runningWorld_def)
  from walk_end_status_and_duration [OF run live] run show ?thesis
    by auto
qed

text \<open>
  Cancellation of an execution that is not running (absent from the ledger, or already
  completed, failed or cancelled) changes nothing and emits nothing.
\<close>

theorem cancel_only_while_running:
  assumes "executions w executionId = None \<or>
           (\<exists>execution. executions w executionId = Some execution \<and>
                         exec_status execution \<noteq> Running)"
  shows "cancelExecution C executionId w = w"
  using assms by (auto simp: cancelExecution_def)


theorem cancel_only_while_running_witness:
  "cancelExecution alwaysOk ''exec_1'' finishedWorld = finishedWorld"
proof -
  have "executions finishedWorld ''exec_1'' =
          Some (runningExecution\<lparr>exec_status := Completed, exec_completedAt := Some 1010,
                                  exec_duration := Some 10\<rparr>)"
    by (simp add: finishedWorld_def update_execution_def runningWorld_def)
  then have "executions finishedWorld ''exec_1'' = None \<or>
      (\<exists>execution. executions finishedWorld ''exec_1'' = Some execution \<and>
                    exec_status execution \<noteq> Running)"
    by simp
  then show ?thesis by (rule cancel_only_while_running)
qed

text \<open>
  Pending steps (with C7): when no step of the definition has dependencies,
  \<open>findPendingSteps\<close> returns the ids of all steps, in the definition's order, whatever
  the execution has already run.
\<close>

theorem pending_steps_without_dependencies:
  assumes "list_all (\<lambda>s. step_dependencies s = None) (wf_steps definition)"
  shows "findPendingSteps execution definition = Inr (map step_id (wf_steps definition))"
proof -
  have "list_all (\<lambda>stepId.
          (case find (\<lambda>s. step_id s = stepId) (wf_steps definition) of
              None \<Rightarrow> Inr False
            | Some step \<Rightarrow>
                (case step_dependencies step of
                   Some deps \<Rightarrow> every (jsIncludes (getCompletedSteps execution)) deps
                 | None \<Rightarrow> Inr True)) = Inr True)
        (map step_id (wf_steps definition))"
    unfolding list_all_iff
  proof
    fix stepId assume "stepId \<in> set (map step_id (wf_steps definition))"
    then obtain s where "s \<in> set (wf_steps definition)" "stepId = step_id s" by auto
    with find_step_id obtain t where
      "find (\<lambda>u. step_id u = stepId) (wf_steps definition) = Some t" "t \<in> set (wf_steps definition)"
      by blast
    with assms show "(case find (\<lambda>s. step_id s = stepId) (wf_steps definition) of
              None \<Rightarrow> Inr False
            | Some step \<Rightarrow>
                (case step_dependencies step of
                   Some deps \<Rightarrow> every (jsIncludes (getCompletedSteps execution)) deps
                 | None \<Rightarrow> Inr True)) = Inr True"
      by (auto simp: list_all_iff)
  qed
  then show ?thesis
    unfolding findPendingSteps_def Let_def by (rule filterArray_all)
qed

theorem pending_steps_without_dependencies_witness:
  "findPendingSteps runningExecution twoStartWorkflow = Inr [''step1'', ''step2'']"
proof -
  have "list_all (\<lambda>s. step_dependencies s = None) (wf_steps twoStartWorkflow)"
    by (simp add: twoStartWorkflow_def mkWorkflow_def mkStep_def)
  from pending_steps_without_dependencies [OF this, of runningExecution]
  show ?thesis by (simp add: twoStartWorkflow_def mkWorkflow_def mkStep_def)
qed

text \<open>
  A raised error of the Step Runner (with C8): \<open>executeStep\<close> does not call the Step
  Runner again; from the state \<open>w'\<close> reached after that single call (\<open>runs\<close> has grown
  by the one step id) it goes on with the error handler when the step names one, and
  raises the Step Runner's error otherwise.
\<close>

theorem failed_step_single_attempt:
  assumes "find (\<lambda>s. step_id s = stepId) (wf_steps definition) = Some step"
    and "executions w eid = Some execution"
    and "execute C (length (runs w)) step
           (runnerContext (execution\<lparr>exec_currentStep := Some stepId\<rparr>) stepId input) = Inl err"
  shows "\<exists>w'. runs w' = runs w @ [stepId] \<and>
           executeStep (Suc n) C eid definition stepId input w =
             (if truthy (step_errorHandler step)
              then handleStepError n C eid definition step err w'
              else Some (Inl err, w'))"
proof -
  let ?w' = "fold (cancelExecution C) (cancelRequests C (length (runs w)))
               ((update_execution eid (\<lambda>ex. ex\<lparr>exec_currentStep := Some stepId\<rparr>) w)
                  \<lparr>runs := runs w @ [stepId]\<rparr>)"
  have "runs ?w' = runs w @ [stepId]"
    by (simp add: runs_cancelRequests)
  moreover have "executeStep (Suc n) C eid definition stepId input w =
             (if truthy (step_errorHandler step)
              then handleStepError n C eid definition step err ?w'
              else Some (Inl err, ?w'))"
    using assms by (simp add: update_execution_def Let_def del: handleStepError.simps)
  ultimately show ?thesis by blast
qed

theorem failed_step_single_attempt_witness:
  "map_option (map_sum message res_success \<circ> fst)
       (executeStep (Suc 0) failsOnce ''exec_1'' retryWorkflow ''step1'' None runningWorld)
     = Some (Inl ''boom'') \<and>
   map_option (runs \<circ> snd)
       (executeStep (Suc 0) failsOnce ''exec_1'' retryWorkflow ''step1'' None runningWorld)
     = Some [''step1'']"
proof -
  let ?step = "(mkStep ''step1'' None None)
          \<lparr>step_retryPolicy :=
             Some \<lparr>maxAttempts = 3, backoff = Fixed, delay = 100, maxDelay = None\<rparr>\<rparr>"
  have found: "find (\<lambda>s. step_id s = ''step1'') (wf_steps retryWorkflow) = Some ?step"
    by (simp add: retryWorkflow_def mkWorkflow_def mkStep_def)
  have live: "executions runningWorld ''exec_1'' = Some runningExecution"
    by (simp add: runningWorld_def)
  have fails: "execute failsOnce (length (runs runningWorld)) ?step
      (runnerContext (runningExecution\<lparr>exec_currentStep := Some ''step1''\<rparr>) ''step1'' None)
        = Inl (Error ''boom'')"
    by (simp add: failsOnce_def sampleServices_def runningWorld_def)
  have plain: "\<not> truthy (step_errorHandler ?step)"
    by (simp add: truthy_def mkStep_def)
  have start: "runs runningWorld = []"
    by (simp add: runningWorld_def)
  from failed_step_single_attempt [OF found live fails, of 0] plain start
  show ?thesis
    by (auto simp del: executeStep.simps)
qed

text \<open>
  A result of the Step Runner with \<open>success = false\<close> is no failure for the engine: when
  the Step Runner returns a result, whatever its \<open>success\<close> field, and the state snapshot
  succeeds, \<open>executeStep\<close> returns that result after the single call; no error handler
  runs and nothing is raised.
\<close>

theorem returned_result_not_inspected:
  assumes found: "find (\<lambda>s. step_id s = stepId) (wf_steps definition) = Some step"
    and live: "executions w eid = Some execution"
    and returned: "execute C (length (runs w)) step
           (runnerContext (execution\<lparr>exec_currentStep := Some stepId\<rparr>) stepId input)
         = Inr result"
    and snapshot: "\<forall>k saved. saveExecutionState C k saved = None"
  shows "\<exists>w'. runs w' = runs w @ [stepId] \<and>
           executeStep (Suc n) C eid definition stepId input w = Some (Inr result, w')"
proof -
  define w1 where "w1 = update_execution eid (\<lambda>ex. ex\<lparr>exec_currentStep := Some stepId\<rparr>) w"
  define w2 where "w2 = fold (cancelExecution C) (cancelRequests C (length (runs w1)))
                           (w1\<lparr>runs := runs w1 @ [stepId]\<rparr>)"
  define w3 where "w3 = (case res_data result of
               None \<Rightarrow> w2
             | Some d \<Rightarrow>
                 update_execution eid (\<lambda>ex. ex\<lparr>exec_context := exec_context ex ++ d\<rparr>) w2)"
  have live1: "executions w1 eid = Some (execution\<lparr>exec_currentStep := Some stepId\<rparr>)"
    using live by (simp add: w1_def update_execution_def)
  have runs1: "runs w1 = runs w"
    by (simp add: w1_def update_execution_def)
  have "dom (executions w3) = dom (executions w)"
    by (simp add: w3_def w2_def w1_def dom_cancelRequests dom_update_execution
        split: option.splits)
  with live obtain saved where saved: "executions w3 eid = Some saved"
    by (metis domD domI)
  have grown: "runs (w3\<lparr>saves := Suc (saves w3)\<rparr>) = runs w @ [stepId]"
    by (simp add: w3_def w2_def runs1 runs_cancelRequests update_execution_def
        split: option.splits)
  have "executeStep (Suc n) C eid definition stepId input w
          = Some (Inr result, w3\<lparr>saves := Suc (saves w3)\<rparr>)"
    using found live1 returned [folded runs1] saved snapshot unfolding w1_def w2_def w3_def
    by (simp add: Let_def del: handleStepError.simps)
  with grown show ?thesis by blast
qed

theorem returned_result_not_inspected_witness:
  "map_option (map_sum message res_success \<circ> fst)
       (executeStep (Suc 0)
          (sampleServices (\<lambda>k step ctx. Inr (okResult\<lparr>res_success := False\<rparr>)) (\<lambda>k. [])
             singleStepWorkflow)
          ''exec_1'' singleStepWorkflow ''step1'' None runningWorld)
     = Some (Inr False)"
proof -
  let ?C = "sampleServices (\<lambda>k step ctx. Inr (okResult\<lparr>res_success := False\<rparr>)) (\<lambda>k. [])
              singleStepWorkflow"
  have found: "find (\<lambda>s. step_id s = ''step1'') (wf_steps singleStepWorkflow)
      = Some (mkStep ''step1'' None None)"
    by (simp add: singleStepWorkflow_def mkWorkflow_def mkStep_def)
  have live: "executions runningWorld ''exec_1'' = Some runningExecution"
    by (simp add: runningWorld_def)
  have returns: "execute ?C (length (runs runningWorld)) (mkStep ''step1'' None None)
      (runnerContext (runningExecution\<lparr>exec_currentStep := Some ''step1''\<rparr>) ''step1'' None)
        = Inr (okResult\<lparr>res_success := False\<rparr>)"
    by (simp add: sampleServices_def)
  have saves: "\<forall>k saved. saveExecutionState ?C k saved = None"
    by (simp add: sampleServices_def)
  from returned_result_not_inspected [OF found live returns saves, of 0]
  show ?thesis
    by (auto simp: okResult_def simp del: executeStep.simps)
qed

section \<open>Results: the saga engine\<close>

text \<open>
  C3 (a compensation that raises), at Scenario E: the \<open>compensation_failed\<close>
  notification is emitted and the compensation error reaches the caller of \<open>startSaga\<close>,
  but the outer \<^verbatim>\<open>catch\<close> block of \<open>executeSaga\<close> then overwrites the status: the run
  ends with status \<open>failed\<close>, after a further \<open>saga.failed\<close> notification.
\<close>

theorem compensation_failure_ends_failed:
  "(case startSaga (sagaServices (Some (Error ''undo failed''))) threeStepSaga Map.empty
           emptySagaWorld of
      (outcome, ctx, w) \<Rightarrow>
        outcome = Inl (Error ''undo failed'') \<and> status ctx = SagaFailed \<and>
        saga_emitted w = [(''saga.started'', ''saga_1''), (''saga.step.completed'', ''saga_1''),
                          (''saga.compensation_failed'', ''saga_1''),
                          (''saga.failed'', ''saga_1'')])"
  by code_simp

text \<open>
  C4 (Scenario D): in a saga of three steps with backward compensation, where \<open>step1\<close>
  completes and names a compensation action (a non-empty name), \<open>step2\<close> fails (its
  dependencies are unmet or its action raises) and the compensation action does not raise,
  \<open>startSaga\<close> returns the execution id, the status is \<open>compensated\<close>, and the runners
  were called for \<open>step1\<close>, for \<open>step2\<close> when its dependencies were met, and once for the
  compensation of \<open>step1\<close>: nothing else, so never for \<open>step3\<close>.
\<close>

theorem backward_compensation_scenario:
  assumes steps: "saga_steps sagaDefinition = [step1, step2, step3]"
    and backward: "strategy (compensationPolicy sagaDefinition) = Backward"
    and ready1: "\<not> dependenciesUnmet step1 []"
    and done1: "orchestratorExecuteStep S (length (invoked w)) step1 initialData = Inr result1"
    and comp1: "sstep_compensation step1 = Some action" "action \<noteq> []"
    and fails2: "dependenciesUnmet step2 [sstep_id step1] \<or>
                 orchestratorExecuteStep S (Suc (length (invoked w))) step2
                   (initialData ++ result1) = Inl err"
    and undo: "\<forall>k. executeCompensation S k action (initialData ++ result1) = None"
  shows "(case startSaga S sagaDefinition initialData w of
            (outcome, ctx, w') \<Rightarrow>
              outcome = Inr (saga_generateExecutionId S (saga_allocated w)) \<and>
              status ctx = SagaCompensated \<and>
              completedSteps ctx = [sstep_id step1] \<and>
              currentStep ctx = 1 \<and>
              invoked w' = invoked w @ [StepAction step1] @
                 (if dependenciesUnmet step2 [sstep_id step1] then [] else [StepAction step2]) @
                 [CompensationAction action] \<and>
              saga_emitted w' = saga_emitted w @
                 [(''saga.started'', saga_generateExecutionId S (saga_allocated w)),
                  (''saga.step.completed'', saga_generateExecutionId S (saga_allocated w)),
                  (''saga.compensated'', saga_generateExecutionId S (saga_allocated w))])"
proof (cases "dependenciesUnmet step2 [sstep_id step1]")
  case True
  then show ?thesis
    using steps backward ready1 done1 comp1 undo
    by (simp add: startSaga_def executeSaga_def handleStepFailure_def
        executeBackwardCompensation_def determineCompensationStrategy_def truthy_def Let_def)
next
  case False
  with fails2 have "orchestratorExecuteStep S (Suc (length (invoked w))) step2
                   (initialData ++ result1) = Inl err" by simp
  with False show ?thesis
    using steps backward ready1 done1 comp1 undo
    by (simp add: startSaga_def executeSaga_def handleStepFailure_def
        executeBackwardCompensation_def determineCompensationStrategy_def truthy_def Let_def)
qed

theorem backward_compensation_scenario_witness:
  "(case startSaga (sagaServices None) threeStepSaga Map.empty emptySagaWorld of
      (outcome, ctx, w') \<Rightarrow>
        outcome = Inr ''saga_1'' \<and> status ctx = SagaCompensated \<and>
        completedSteps ctx = [''step1''] \<and> currentStep ctx = 1 \<and>
        invoked w' = [StepAction (mkSagaStep ''step1'' (Some ''undo1'')),
                      StepAction (mkSagaStep ''step2'' None),
                      CompensationAction ''undo1''] \<and>
        saga_emitted w' = [(''saga.started'', ''saga_1''),
                           (''saga.step.completed'', ''saga_1''),
                           (''saga.compensated'', ''saga_1'')])"
proof -
  have steps: "saga_steps threeStepSaga =
      [mkSagaStep ''step1'' (Some ''undo1''), mkSagaStep ''step2'' None, mkSagaStep ''step3'' None]"
    by (simp add: threeStepSaga_def)
  have backward: "strategy (compensationPolicy threeStepSaga) = Backward"
    by (simp add: threeStepSaga_def)
  have ready1: "\<not> dependenciesUnmet (mkSagaStep ''step1'' (Some ''undo1'')) []"
    by (simp add: dependenciesUnmet_def mkSagaStep_def)
  have done1: "orchestratorExecuteStep (sagaServices None) (length (invoked emptySagaWorld))
      (mkSagaStep ''step1'' (Some ''undo1'')) Map.empty = Inr Map.empty"
    by (simp add: sagaServices_def mkSagaStep_def)
  have comp1: "sstep_compensation (mkSagaStep ''step1'' (Some ''undo1'')) = Some ''undo1''"
    by (simp add: mkSagaStep_def)
  have fails2: "dependenciesUnmet (mkSagaStep ''step2'' None)
        [sstep_id (mkSagaStep ''step1'' (Some ''undo1''))] \<or>
      orchestratorExecuteStep (sagaServices None) (Suc (length (invoked emptySagaWorld)))
        (mkSagaStep ''step2'' None) (Map.empty ++ Map.empty) = Inl (Error ''payment declined'')"
    by (simp add: sagaServices_def mkSagaStep_def)
  have undo: "\<forall>k. executeCompensation (sagaServices None) k ''undo1'' (Map.empty ++ Map.empty) = None"
    by (simp add: sagaServices_def)
  have met2: "\<not> dependenciesUnmet (mkSagaStep ''step2'' None)
        [sstep_id (mkSagaStep ''step1'' (Some ''undo1''))]"
    by (simp add: dependenciesUnmet_def mkSagaStep_def)
  from backward_compensation_scenario [OF steps backward ready1 done1 comp1 _ fails2 undo]
  show ?thesis
    using met2 by (simp add: sagaServices_def emptySagaWorld_def mkSagaStep_def)
qed

text \<open>
  A saga whose steps all succeed: when no step declares dependencies and the action of
  every step of the saga returns, \<open>startSaga\<close> returns the execution id, the status is
  \<open>completed\<close>, and the actions ran once each, in the definition's order.
\<close>

theorem saga_all_steps_succeed:
  assumes "list_all (\<lambda>s. \<forall>k d. \<exists>res. orchestratorExecuteStep S k s d = Inr res)
             (saga_steps sagaDefinition)"
    and "list_all (\<lambda>s. sstep_dependencies s = None) (saga_steps sagaDefinition)"
  shows "(case startSaga S sagaDefinition initialData w of
            (outcome, ctx, w') \<Rightarrow>
              outcome = Inr (saga_generateExecutionId S (saga_allocated w)) \<and>
              status ctx = SagaCompleted \<and> failedSteps ctx = [] \<and>
              completedSteps ctx = map sstep_id (saga_steps sagaDefinition) \<and>
              invoked w' = invoked w @ map StepAction (saga_steps sagaDefinition))"
proof -
  let ?eid = "saga_generateExecutionId S (saga_allocated w)"
  let ?ctx = "\<lparr>sagaId = saga_id sagaDefinition, sagaName = saga_name sagaDefinition,
             status = SagaRunning, currentStep = 0, data = initialData, completedSteps = [],
             failedSteps = [], startTime = saga_now S (saga_clock w),
             compensationRequired = False\<rparr>"
  let ?w1 = "w\<lparr>activeSagas := (activeSagas w)(?eid \<mapsto> ?ctx),
                 saga_clock := Suc (saga_clock w),
                 saga_allocated := Suc (saga_allocated w),
                 saga_emitted := saga_emitted w @ [(''saga.started'', ?eid)]\<rparr>"
  from sagaLoop_all_succeed [OF assms, where executionId = ?eid and sagaDefinition = sagaDefinition
      and i = 0 and ctx = ?ctx and w = ?w1]
  show ?thesis
    by (auto simp: startSaga_def executeSaga_def Let_def split: prod.splits)
qed


theorem saga_all_steps_succeed_witness:
  "(case startSaga (sagaServices None) twoStepSaga Map.empty emptySagaWorld of
      (outcome, ctx, w') \<Rightarrow>
        outcome = Inr ''saga_1'' \<and> status ctx = SagaCompleted \<and>
        completedSteps ctx = [''step1'', ''step3''])"
proof -
  have succeed: "list_all (\<lambda>s. \<forall>k d. \<exists>res. orchestratorExecuteStep (sagaServices None) k s d = Inr res)
      (saga_steps twoStepSaga)"
    by (simp add: twoStepSaga_def sagaServices_def mkSagaStep_def)
  have nodeps: "list_all (\<lambda>s. sstep_dependencies s = None) (saga_steps twoStepSaga)"
    by (simp add: twoStepSaga_def mkSagaStep_def)
  from saga_all_steps_succeed [OF succeed nodeps, where initialData = Map.empty
      and w = emptySagaWorld]
  show ?thesis
    by (simp add: twoStepSaga_def sagaServices_def mkSagaStep_def emptySagaWorld_def
        split: prod.splits)
qed

text \<open>
  The entry of the run in \<open>activeSagas\<close> is gone when \<open>startSaga\<close> ends, whatever the
  outcome (completed, compensated, or a raised error).
\<close>

theorem saga_entry_removed:
  "(case startSaga S sagaDefinition initialData w of
      (outcome, ctx, w') \<Rightarrow>
        activeSagas w' (saga_generateExecutionId S (saga_allocated w)) = None)"
  by (simp add: startSaga_def executeSaga_def Let_def split: prod.splits option.splits)

end
